theory Spec2Isabelle
  imports Main "HOL-Library.Char_ord" "HOL-Library.List_Lexorder"
begin

section \<open>Python values and their text\<close>

text \<open>
  The configurations handled by \<^verbatim>\<open>debug_log.py\<close> are Python dictionaries from
  parameter names to values. \<^verbatim>\<open>_to_key\<close> takes any value and keys it by the text
  \<^verbatim>\<open>repr\<close> gives it. For \<^verbatim>\<open>None\<close>, a bool, an int and a str that text is
  computed here. Any other value (a float, a numpy scalar, ...) is a \<open>PObject\<close>: a number
  that tells it from every other value, and the texts that \<^verbatim>\<open>repr\<close> and
  \<^verbatim>\<open>str\<close> give it, which are not computed. A string is a list of code points below
  256, so \<open>length\<close> counts what Python's \<^verbatim>\<open>len\<close> counts.
\<close>

datatype pyval = PNone | PBool bool | PInt int | PStr string | PObject nat string string

subsection \<open>\<^verbatim>\<open>str\<close> of an int\<close>

definition digit_char :: "nat \<Rightarrow> char" where
  "digit_char d = ''0123456789'' ! d"

fun py_digits :: "nat \<Rightarrow> string" where
  "py_digits n =
     (if n < 10 then [digit_char n] else py_digits (n div 10) @ [digit_char (n mod 10)])"

declare py_digits.simps [simp del]

definition py_str_int :: "int \<Rightarrow> string" where
  "py_str_int i = (if i < 0 then CHR ''-'' # py_digits (nat (- i)) else py_digits (nat i))"

subsection \<open>\<^verbatim>\<open>repr\<close> of a str\<close>

text \<open>
  CPython's \<^verbatim>\<open>unicode_repr\<close>: the quote is \<^verbatim>\<open>'\<close> unless the string holds a
  \<^verbatim>\<open>'\<close> and no \<^verbatim>\<open>"\<close>; the quote and the backslash are escaped with a
  backslash, tab, newline and carriage return by their letters, and every other
  non-printable code point (below 0x20, 0x7f to 0xa0, 0xad) as \<^verbatim>\<open>\xhh\<close>.
\<close>

definition hex_char :: "nat \<Rightarrow> char" where
  "hex_char d = ''0123456789abcdef'' ! d"

definition py_quote :: "string \<Rightarrow> char" where
  "py_quote s = (if CHR 0x27 \<in> set s \<and> CHR 0x22 \<notin> set s then CHR 0x22 else CHR 0x27)"

definition py_escape :: "char \<Rightarrow> char \<Rightarrow> string" where
  "py_escape q c =
     (if c = q \<or> c = CHR 0x5C then [CHR 0x5C, c]
      else if c = CHR 0x09 then [CHR 0x5C, CHR ''t'']
      else if c = CHR 0x0A then [CHR 0x5C, CHR ''n'']
      else if c = CHR 0x0D then [CHR 0x5C, CHR ''r'']
      else if (of_char c :: nat) < 32 \<or> (127 \<le> (of_char c :: nat) \<and> (of_char c :: nat) \<le> 160)
              \<or> (of_char c :: nat) = 173
        then [CHR 0x5C, CHR ''x'', hex_char (of_char c div 16), hex_char (of_char c mod 16)]
      else [c])"

definition py_repr_str :: "string \<Rightarrow> string" where
  "py_repr_str s = (let q = py_quote s in q # concat (map (py_escape q) s) @ [q])"

subsection \<open>\<^verbatim>\<open>repr\<close> and \<^verbatim>\<open>str\<close> of a value, \<^verbatim>\<open>str\<close> of a tuple\<close>

fun py_repr :: "pyval \<Rightarrow> string" where
  "py_repr PNone = ''None''"
| "py_repr (PBool b) = (if b then ''True'' else ''False'')"
| "py_repr (PInt i) = py_str_int i"
| "py_repr (PStr s) = py_repr_str s"
| "py_repr (PObject _ repr_text _) = repr_text"

fun py_str :: "pyval \<Rightarrow> string" where
  "py_str (PStr s) = s"
| "py_str (PObject _ _ str_text) = str_text"
| "py_str v = py_repr v"

fun py_join :: "string \<Rightarrow> string list \<Rightarrow> string" where
  "py_join sep [] = []"
| "py_join sep [x] = x"
| "py_join sep (x # y # ys) = x @ sep @ py_join sep (y # ys)"

definition py_str_tuple :: "pyval list \<Rightarrow> string" where
  "py_str_tuple vs =
     (case vs of
        [v] \<Rightarrow> ''('' @ py_repr v @ '',)''
      | _ \<Rightarrow> ''('' @ py_join '', '' (map py_repr vs) @ '')'')"

section \<open>Configurations and their keys\<close>

text \<open>
  A configuration is a Python \<^verbatim>\<open>dict\<close>: an association list in insertion order,
  with no name twice (\<open>wf_config\<close>). Only the \<^verbatim>\<open>dict\<close> branch of
  \<^verbatim>\<open>_to_key\<close> is modelled: a \<^verbatim>\<open>CS.Configuration\<close> is first turned into
  its dictionary.
\<close>

type_synonym config = "(string \<times> pyval) list"

definition wf_config :: "config \<Rightarrow> bool" where
  "wf_config c = distinct (map fst c)"

text \<open>\<^verbatim>\<open>d.get(k)\<close>: the value, or \<^verbatim>\<open>None\<close> when the name is absent.\<close>

definition dict_get :: "config \<Rightarrow> string \<Rightarrow> pyval" where
  "dict_get d k = (case map_of d k of None \<Rightarrow> PNone | Some v \<Rightarrow> v)"

text \<open>
  \<^verbatim>\<open>ExtendedConfiguration\<close> is a class of \<^verbatim>\<open>config_ext.py\<close>, a module that is
  not modelled. \<^verbatim>\<open>_to_key\<close> uses its attribute \<^verbatim>\<open>resource_attr_name\<close> and
  its method \<^verbatim>\<open>remove_resource\<close>.
\<close>

record ExtendedConfiguration =
  resource_attr_name :: string

text \<open>
  Modelled from the spec: \<^verbatim>\<open>ExtendedConfiguration.remove_resource\<close> is missing; the
  spec says it returns "the configuration with that attribute removed".
\<close>

definition remove_resource :: "ExtendedConfiguration \<Rightarrow> config \<Rightarrow> config" where
  "remove_resource configspace_ext config =
     filter (\<lambda>(k, v). k \<noteq> resource_attr_name configspace_ext) config"

text \<open>
  \<^verbatim>\<open>_to_key(config, configspace_ext)\<close> returns the key, the dictionary without the
  resource entry, and the resource (\<open>PNone\<close> for Python's \<^verbatim>\<open>None\<close>). The key is
  the text of the tuple of the \<^emph>\<open>values\<close>, in the order of their names.
\<close>

definition to_key :: "config \<Rightarrow> ExtendedConfiguration option \<Rightarrow> string \<times> config \<times> pyval" where
  "to_key config configspace_ext =
     (let config_dict = config;
          (config_dict, resource) =
            (case configspace_ext of
               None \<Rightarrow> (config_dict, PNone)
             | Some ext \<Rightarrow>
                 (let resource = dict_get config_dict (resource_attr_name ext)
                  in if resource \<noteq> PNone then (remove_resource ext config, resource)
                     else (config_dict, resource)));
          config_tpl = map snd (sort_key fst config_dict)
      in (py_str_tuple config_tpl, config_dict, resource))"

section \<open>Errors\<close>

text \<open>
  Every \<^verbatim>\<open>assert\<close> of the source is a constructor of \<open>assertion\<close>, named after
  its message; a failing dictionary subscript is a \<open>KeyError\<close> with the missing key.
\<close>

datatype assertion =
    ConfigAlreadyAssigned config int
  | NoBlockOpen
  | BlockCurrentlyOpen string
  | ConfigMustNotBeExtended
  | NeedBOBlock
  | BadGcType

datatype error =
    AssertionError assertion
  | KeyError string
  | UnpicklingError string

section \<open>\<^verbatim>\<open>ConfigCounter\<close>\<close>

text \<open>
  The field \<^verbatim>\<open>_config_id\<close> is \<open>config_id_dict\<close> here (the method
  \<^verbatim>\<open>config_id\<close> keeps its name). A method returns its result, or the error it
  raises, together with the object as it is left.
\<close>

record ConfigCounter =
  config_counter :: int
  config_id_dict :: "string \<rightharpoonup> int"
  configspace_ext :: "ExtendedConfiguration option"

definition ConfigCounter_init :: "ExtendedConfiguration option \<Rightarrow> ConfigCounter" where
  "ConfigCounter_init ext =
     \<lparr>config_counter = 0, config_id_dict = Map.empty, configspace_ext = ext\<rparr>"

definition add_config :: "config \<Rightarrow> ConfigCounter \<Rightarrow> (error + config \<times> pyval) \<times> ConfigCounter" where
  "add_config config self =
     (case to_key config (configspace_ext self) of
        (config_key, config_dct, resource) \<Rightarrow>
          (case config_id_dict self config_key of
             Some i \<Rightarrow> (Inl (AssertionError (ConfigAlreadyAssigned config_dct i)), self)
           | None \<Rightarrow>
               (Inr (config_dct, resource),
                self\<lparr>config_id_dict := (config_id_dict self)(config_key \<mapsto> config_counter self),
                     config_counter := config_counter self + 1\<rparr>)))"

definition config_id :: "config \<Rightarrow> ConfigCounter \<Rightarrow> error + string" where
  "config_id config self =
     (case to_key config (configspace_ext self) of
        (config_key, _, resource) \<Rightarrow>
          (case config_id_dict self config_key of
             None \<Rightarrow> Inl (KeyError config_key)
           | Some i \<Rightarrow>
               Inr (if resource = PNone then py_str_int i
                    else py_str_int i @ '':'' @ py_str resource)))"

text \<open>The snapshot: the dictionary with the keys \<^verbatim>\<open>config_counter\<close> and \<^verbatim>\<open>config_id\<close>.\<close>

record mutable_state =
  state_config_counter :: int
  state_config_id :: "string \<rightharpoonup> int"

definition get_mutable_state :: "ConfigCounter \<Rightarrow> mutable_state" where
  "get_mutable_state self =
     \<lparr>state_config_counter = config_counter self, state_config_id = config_id_dict self\<rparr>"

definition set_mutable_state :: "mutable_state \<Rightarrow> ConfigCounter \<Rightarrow> ConfigCounter" where
  "set_mutable_state state self =
     self\<lparr>config_counter := state_config_counter state,
          config_id_dict := state_config_id state\<rparr>"

text \<open>
  A caller's sequence of \<^verbatim>\<open>add_config\<close> calls, each result kept; a call that raises
  leaves the object as it was, and the caller goes on.
\<close>

fun add_configs :: "config list \<Rightarrow> ConfigCounter \<Rightarrow> (error + config \<times> pyval) list \<times> ConfigCounter" where
  "add_configs [] self = ([], self)"
| "add_configs (c # cs) self =
     (case add_config c self of
        (r, self') \<Rightarrow> (case add_configs cs self' of (rs, self'') \<Rightarrow> (r # rs, self'')))"

section \<open>\<^verbatim>\<open>DebugLogPrinter\<close>\<close>

text \<open>
  \<^verbatim>\<open>block_info\<close> is a dictionary whose keys are the eight names the methods write:
  \<^verbatim>\<open>info['state']\<close> is \<open>info_state\<close>, and a key that is absent is \<open>None\<close>.
  All values are text but \<^verbatim>\<open>num_evals\<close>, an int.
\<close>

record block_info =
  info_final_config :: "string option"
  info_state :: "string option"
  info_targets :: "string option"
  info_params :: "string option"
  info_fantasies :: "string option"
  info_start_config :: "string option"
  info_num_evals :: "int option"
  info_extra :: "string option"

definition empty_info :: block_info where
  "empty_info =
     \<lparr>info_final_config = None, info_state = None, info_targets = None, info_params = None,
      info_fantasies = None, info_start_config = None, info_num_evals = None,
      info_extra = None\<rparr>"

text \<open>
  The attribute \<^verbatim>\<open>self.config_counter\<close> (a \<^verbatim>\<open>ConfigCounter\<close>) is
  \<open>counter_obj\<close>; \<open>logger_info\<close> holds the records written with
  \<^verbatim>\<open>logger.info\<close>, oldest first.
\<close>

record DebugLogPrinter =
  counter_obj :: ConfigCounter
  block_info :: block_info
  get_config_type :: "string option"
  logger_info :: "string list"

definition DebugLogPrinter_init :: "ExtendedConfiguration option \<Rightarrow> DebugLogPrinter" where
  "DebugLogPrinter_init ext =
     \<lparr>counter_obj = ConfigCounter_init ext, block_info = empty_info,
      get_config_type = None, logger_info = []\<rparr>"

definition set_configspace_ext :: "ExtendedConfiguration \<Rightarrow> DebugLogPrinter \<Rightarrow> DebugLogPrinter" where
  "set_configspace_ext ext self = self\<lparr>counter_obj := ConfigCounter_init (Some ext)\<rparr>"

definition printer_config_id :: "config \<Rightarrow> DebugLogPrinter \<Rightarrow> error + string" where
  "printer_config_id config self = config_id config (counter_obj self)"

definition start_get_config :: "string \<Rightarrow> DebugLogPrinter \<Rightarrow> (error + unit) \<times> DebugLogPrinter" where
  "start_get_config gc_type self =
     (if gc_type \<notin> {''random'', ''BO''} then (Inl (AssertionError BadGcType), self)
      else case get_config_type self of
        Some t \<Rightarrow> (Inl (AssertionError (BlockCurrentlyOpen t)), self)
      | None \<Rightarrow>
          (Inr (),
           self\<lparr>get_config_type := Some gc_type,
                logger_info := logger_info self @
                  [''Starting get_config['' @ gc_type @ ''] for config_id '' @
                   py_str_int (config_counter (counter_obj self))]\<rparr>))"

text \<open>\<^verbatim>\<open>['{}: {}'.format(k, v) for k, v in config.items()]\<close>\<close>

definition config_entries :: "config \<Rightarrow> string list" where
  "config_entries config = map (\<lambda>(k, v). k @ '': '' @ py_str v) config"

definition newline :: string where
  "newline = [CHR 0x0A]"

definition set_final_config :: "config \<Rightarrow> DebugLogPrinter \<Rightarrow> (error + unit) \<times> DebugLogPrinter" where
  "set_final_config config self =
     (case get_config_type self of
        None \<Rightarrow> (Inl (AssertionError NoBlockOpen), self)
      | Some _ \<Rightarrow>
          (case add_config config (counter_obj self) of
             (Inl e, cc) \<Rightarrow> (Inl e, self\<lparr>counter_obj := cc\<rparr>)
           | (Inr (config', resource), cc) \<Rightarrow>
               (let self = self\<lparr>counter_obj := cc\<rparr>
                in if resource \<noteq> PNone
                   then (Inl (AssertionError ConfigMustNotBeExtended), self)
                   else
                     (let entries = config_entries config';
                          msg = py_join newline entries
                      in (Inr (),
                          self\<lparr>block_info := (block_info self)\<lparr>info_final_config := Some msg\<rparr>\<rparr>)))))"

text \<open>
  \<^verbatim>\<open>TuningJobState\<close> is another module's; \<^verbatim>\<open>set_state\<close> reads the candidates
  of its evaluations and its pending candidates.
\<close>

record TuningJobState =
  candidate_evaluations :: "config list"
  pending_candidates :: "config list"

text \<open>\<^verbatim>\<open>[self.config_id(x) for x in xs]\<close>: the first lookup that raises ends the loop.\<close>

fun config_ids :: "config list \<Rightarrow> DebugLogPrinter \<Rightarrow> error + string list" where
  "config_ids [] self = Inr []"
| "config_ids (x # xs) self =
     (case printer_config_id x self of
        Inl e \<Rightarrow> Inl e
      | Inr i \<Rightarrow> (case config_ids xs self of Inl e \<Rightarrow> Inl e | Inr is \<Rightarrow> Inr (i # is)))"

definition set_state :: "TuningJobState \<Rightarrow> DebugLogPrinter \<Rightarrow> (error + unit) \<times> DebugLogPrinter" where
  "set_state state self =
     (if get_config_type self \<noteq> Some ''BO'' then (Inl (AssertionError NeedBOBlock), self)
      else case config_ids (candidate_evaluations state) self of
        Inl e \<Rightarrow> (Inl e, self)
      | Inr labeled \<Rightarrow>
          (case config_ids (pending_candidates state) self of
             Inl e \<Rightarrow> (Inl e, self)
           | Inr pending \<Rightarrow>
               (let msg = ''Labeled: '' @ py_join '', '' labeled @ ''. Pending: '' @
                          py_join '', '' pending
                in (Inr (), self\<lparr>block_info := (block_info self)\<lparr>info_state := Some msg\<rparr>\<rparr>))))"

text \<open>
  The text numpy gives an array, and Python a dictionary of parameters, is not modelled:
  the three setters below take it as their argument (\<^verbatim>\<open>str(targets.reshape((-1,)))\<close>,
  \<^verbatim>\<open>str(params)\<close>, \<^verbatim>\<open>str(fantasies)\<close>), and \<^verbatim>\<open>set_init_config\<close> takes the
  text of the top scores, if any.
\<close>

definition set_targets :: "string \<Rightarrow> DebugLogPrinter \<Rightarrow> (error + unit) \<times> DebugLogPrinter" where
  "set_targets targets_str self =
     (if get_config_type self \<noteq> Some ''BO'' then (Inl (AssertionError NeedBOBlock), self)
      else (Inr (),
            self\<lparr>block_info := (block_info self)\<lparr>info_targets := Some (''Targets: '' @ targets_str)\<rparr>\<rparr>))"

definition set_gp_params :: "string \<Rightarrow> DebugLogPrinter \<Rightarrow> (error + unit) \<times> DebugLogPrinter" where
  "set_gp_params params_str self =
     (if get_config_type self \<noteq> Some ''BO'' then (Inl (AssertionError NeedBOBlock), self)
      else (Inr (),
            self\<lparr>block_info := (block_info self)\<lparr>info_params := Some (''GP params:'' @ params_str)\<rparr>\<rparr>))"

definition set_fantasies :: "string \<Rightarrow> DebugLogPrinter \<Rightarrow> (error + unit) \<times> DebugLogPrinter" where
  "set_fantasies fantasies_str self =
     (if get_config_type self \<noteq> Some ''BO'' then (Inl (AssertionError NeedBOBlock), self)
      else (Inr (),
            self\<lparr>block_info := (block_info self)
              \<lparr>info_fantasies := Some (''Fantasized targets:'' @ newline @ fantasies_str)\<rparr>\<rparr>))"

definition set_init_config ::
  "config \<Rightarrow> string option \<Rightarrow> DebugLogPrinter \<Rightarrow> (error + unit) \<times> DebugLogPrinter" where
  "set_init_config config top_scores_str self =
     (if get_config_type self \<noteq> Some ''BO'' then (Inl (AssertionError NeedBOBlock), self)
      else case to_key config (configspace_ext (counter_obj self)) of
        (_, config', _) \<Rightarrow>
          (let entries = config_entries config';
               msg = ''Started BO from (top scorer):'' @ newline @ py_join newline entries;
               msg = (case top_scores_str of
                        Some t \<Rightarrow> msg @ newline @ ''Top score values: '' @ t
                      | None \<Rightarrow> msg)
           in (Inr (),
               self\<lparr>block_info := (block_info self)\<lparr>info_start_config := Some msg\<rparr>\<rparr>)))"

definition set_num_evaluations :: "int \<Rightarrow> DebugLogPrinter \<Rightarrow> (error + unit) \<times> DebugLogPrinter" where
  "set_num_evaluations num_evals self =
     (if get_config_type self \<noteq> Some ''BO'' then (Inl (AssertionError NeedBOBlock), self)
      else (Inr (),
            self\<lparr>block_info := (block_info self)\<lparr>info_num_evals := Some num_evals\<rparr>\<rparr>))"

definition append_extra :: "string \<Rightarrow> DebugLogPrinter \<Rightarrow> (error + unit) \<times> DebugLogPrinter" where
  "append_extra extra self =
     (case info_extra (block_info self) of
        Some old \<Rightarrow>
          (Inr (),
           self\<lparr>block_info := (block_info self)\<lparr>info_extra := Some (py_join newline [old, extra])\<rparr>\<rparr>)
      | None \<Rightarrow>
          (Inr (), self\<lparr>block_info := (block_info self)\<lparr>info_extra := Some extra\<rparr>\<rparr>))"

subsection \<open>\<^verbatim>\<open>write_block\<close>\<close>

definition missing_msg :: "string \<Rightarrow> string" where
  "missing_msg name =
     ''debug_log.write_block: '' @ [CHR 0x27] @ name @ [CHR 0x27] @ '' part is missing!''"

text \<open>
  The loop over \<^verbatim>\<open>('state', 'targets', 'params')\<close>: the parts it appends and the
  records it writes to the logger.
\<close>

fun expected_parts :: "(string \<times> string option) list \<Rightarrow> string list \<times> string list" where
  "expected_parts [] = ([], [])"
| "expected_parts ((name, v) # rest) =
     (case expected_parts rest of
        (parts, msgs) \<Rightarrow>
          (case v of
             Some t \<Rightarrow> (t # parts, msgs)
           | None \<Rightarrow> (parts, missing_msg name # msgs)))"

text \<open>\<^verbatim>\<open>if name in info: parts.append(info[name])\<close>\<close>

definition part_if_present :: "string option \<Rightarrow> string list" where
  "part_if_present v = (case v of Some t \<Rightarrow> [t] | None \<Rightarrow> [])"

definition block_header :: "int \<Rightarrow> string \<Rightarrow> int option \<Rightarrow> string" where
  "block_header cid gc_type num_evals =
     (case num_evals of
        Some n \<Rightarrow>
          ''['' @ py_str_int cid @ '': '' @ gc_type @ ''] ('' @ py_str_int n @ '' evaluations)''
      | None \<Rightarrow> ''['' @ py_str_int cid @ '': '' @ gc_type @ '']'')"

definition write_block :: "DebugLogPrinter \<Rightarrow> (error + unit) \<times> DebugLogPrinter" where
  "write_block self =
     (case get_config_type self of
        None \<Rightarrow> (Inl (AssertionError NoBlockOpen), self)
      | Some gc_type \<Rightarrow>
          (let info = block_info self;
               cid = config_counter (counter_obj self) - 1;
               parts = [block_header cid gc_type (info_num_evals info)]
           in case info_final_config info of
                None \<Rightarrow> (Inl (KeyError ''final_config''), self)
              | Some final \<Rightarrow>
                  (let parts = parts @ [final];
                       (parts, msgs) =
                         (if gc_type = ''BO'' then
                            (let parts = parts @ part_if_present (info_start_config info);
                                 (expected, msgs) =
                                   expected_parts
                                     [(''state'', info_state info),
                                      (''targets'', info_targets info),
                                      (''params'', info_params info)];
                                 parts = parts @ expected;
                                 parts = parts @ part_if_present (info_fantasies info)
                             in (parts, msgs))
                          else (parts, []));
                       parts = parts @ part_if_present (info_extra info);
                       msg = py_join newline parts
                   in (Inr (),
                       self\<lparr>logger_info := logger_info self @ msgs @ [msg],
                            get_config_type := None,
                            block_info := empty_info\<rparr>))))"

definition printer_get_mutable_state :: "DebugLogPrinter \<Rightarrow> mutable_state" where
  "printer_get_mutable_state self = get_mutable_state (counter_obj self)"

definition printer_set_mutable_state ::
  "mutable_state \<Rightarrow> DebugLogPrinter \<Rightarrow> (error + unit) \<times> DebugLogPrinter" where
  "printer_set_mutable_state state self =
     (case get_config_type self of
        Some t \<Rightarrow> (Inl (AssertionError (BlockCurrentlyOpen t)), self)
      | None \<Rightarrow>
          (Inr (),
           self\<lparr>counter_obj := set_mutable_state state (counter_obj self),
                block_info := empty_info\<rparr>))"

section \<open>\<^verbatim>\<open>load_pkl.RestrictedUnpickler\<close>\<close>

definition safe_builtins :: "string set" where
  "safe_builtins = {''range'', ''complex'', ''set'', ''frozenset'', ''slice''}"

text \<open>\<^verbatim>\<open>getattr(builtins, name)\<close>: the object of that name in the module \<^verbatim>\<open>builtins\<close>.\<close>

datatype pyobject = Builtin string

definition find_class :: "string \<Rightarrow> string \<Rightarrow> error + pyobject" where
  "find_class module_name name =
     (if module_name = ''builtins'' \<and> name \<in> safe_builtins then Inr (Builtin name)
      else Inl (UnpicklingError
                  (''global '' @ [CHR 0x27] @ module_name @ ''.'' @ name @ [CHR 0x27] @
                   '' is forbidden'')))"

text \<open>
  \<^verbatim>\<open>restricted_loads(s)\<close> is \<^verbatim>\<open>RestrictedUnpickler(io.BytesIO(s)).load()\<close>. The
  inherited \<^verbatim>\<open>load\<close> runs the opcodes of the pickle in order, and resolves every global
  reference (the opcodes \<^verbatim>\<open>GLOBAL\<close> and \<^verbatim>\<open>STACK_GLOBAL\<close>) by calling
  \<^verbatim>\<open>self.find_class(module, name)\<close>; an exception ends the load. Of a pickle, only
  its global references are modelled, in the order of their opcodes.
\<close>

fun restricted_loads_globals :: "(string \<times> string) list \<Rightarrow> error + pyobject list" where
  "restricted_loads_globals [] = Inr []"
| "restricted_loads_globals ((module_name, name) # rest) =
     (case find_class module_name name of
        Inl e \<Rightarrow> Inl e
      | Inr obj \<Rightarrow>
          (case restricted_loads_globals rest of
             Inl e \<Rightarrow> Inl e
           | Inr objs \<Rightarrow> Inr (obj # objs)))"

section \<open>Sequences of calls on a \<^verbatim>\<open>DebugLogPrinter\<close>\<close>

text \<open>
  A caller's calls, one constructor for each method that changes the object. A call that
  raises leaves the object as the method left it, and the caller goes on.
\<close>

datatype call =
    Start_get_config string
  | Set_final_config config
  | Set_state TuningJobState
  | Set_targets string
  | Set_gp_params string
  | Set_fantasies string
  | Set_init_config config "string option"
  | Set_num_evaluations int
  | Append_extra string
  | Write_block
  | Set_mutable_state mutable_state
  | Set_configspace_ext ExtendedConfiguration

fun is_Set_final_config :: "call \<Rightarrow> bool" where
  "is_Set_final_config (Set_final_config _) = True"
| "is_Set_final_config _ = False"

fun do_call :: "call \<Rightarrow> DebugLogPrinter \<Rightarrow> (error + unit) \<times> DebugLogPrinter" where
  "do_call (Start_get_config gc_type) self = start_get_config gc_type self"
| "do_call (Set_final_config config) self = set_final_config config self"
| "do_call (Set_state state) self = set_state state self"
| "do_call (Set_targets t) self = set_targets t self"
| "do_call (Set_gp_params p) self = set_gp_params p self"
| "do_call (Set_fantasies f) self = set_fantasies f self"
| "do_call (Set_init_config config top_scores) self = set_init_config config top_scores self"
| "do_call (Set_num_evaluations n) self = set_num_evaluations n self"
| "do_call (Append_extra extra) self = append_extra extra self"
| "do_call Write_block self = write_block self"
| "do_call (Set_mutable_state state) self = printer_set_mutable_state state self"
| "do_call (Set_configspace_ext ext) self = (Inr (), set_configspace_ext ext self)"

fun do_calls :: "call list \<Rightarrow> DebugLogPrinter \<Rightarrow> DebugLogPrinter" where
  "do_calls [] self = self"
| "do_calls (c # cs) self = do_calls cs (snd (do_call c self))"

section \<open>The table as a shared object\<close>

text \<open>
  \<^verbatim>\<open>get_mutable_state\<close> puts \<^verbatim>\<open>self._config_id\<close> itself in the snapshot, not a
  copy, and \<^verbatim>\<open>set_mutable_state\<close> stores that same object in the other registry. Where
  two registries are alive together this sharing is visible, so here a \<^verbatim>\<open>ConfigCounter\<close>
  holds a reference to its table, and the tables live in a heap: the list of the
  dictionaries allocated so far, a reference being a position in it. \<open>deref\<close> is the
  registry as the definitions above see it; a method reads through it and writes the table
  back in place. A reference made by \<open>ConfigCounter_new\<close> is a position of the heap, and
  no method makes another.
\<close>

type_synonym ref = nat

type_synonym heap = "(string \<rightharpoonup> int) list"

record ConfigCounter_ref =
  ref_config_counter :: int
  ref_config_id_dict :: ref
  ref_configspace_ext :: "ExtendedConfiguration option"

record mutable_state_ref =
  sref_config_counter :: int
  sref_config_id :: ref

definition ConfigCounter_new ::
  "ExtendedConfiguration option \<Rightarrow> heap \<Rightarrow> ConfigCounter_ref \<times> heap" where
  "ConfigCounter_new ext h =
     (\<lparr>ref_config_counter = 0, ref_config_id_dict = length h, ref_configspace_ext = ext\<rparr>,
      h @ [Map.empty])"

definition deref :: "ConfigCounter_ref \<Rightarrow> heap \<Rightarrow> ConfigCounter" where
  "deref self h =
     \<lparr>config_counter = ref_config_counter self,
      config_id_dict = h ! ref_config_id_dict self,
      configspace_ext = ref_configspace_ext self\<rparr>"

definition ref_add_config ::
  "config \<Rightarrow> ConfigCounter_ref \<Rightarrow> heap \<Rightarrow> (error + config \<times> pyval) \<times> ConfigCounter_ref \<times> heap" where
  "ref_add_config config self h =
     (case add_config config (deref self h) of
        (r, self') \<Rightarrow>
          (r, self\<lparr>ref_config_counter := config_counter self'\<rparr>,
           h[ref_config_id_dict self := config_id_dict self']))"

definition ref_config_id :: "config \<Rightarrow> ConfigCounter_ref \<Rightarrow> heap \<Rightarrow> error + string" where
  "ref_config_id config self h = config_id config (deref self h)"

definition ref_get_mutable_state :: "ConfigCounter_ref \<Rightarrow> mutable_state_ref" where
  "ref_get_mutable_state self =
     \<lparr>sref_config_counter = ref_config_counter self, sref_config_id = ref_config_id_dict self\<rparr>"

definition ref_set_mutable_state :: "mutable_state_ref \<Rightarrow> ConfigCounter_ref \<Rightarrow> ConfigCounter_ref" where
  "ref_set_mutable_state state self =
     self\<lparr>ref_config_counter := sref_config_counter state,
          ref_config_id_dict := sref_config_id state\<rparr>"

text \<open>The calls a caller makes on a registry after a restore, and what each returns.\<close>

datatype registry_call = Identifier config | Insert config

datatype registry_result =
    Identifier_result "error + string"
  | Insert_result "error + config \<times> pyval"

fun do_registry_call ::
  "registry_call \<Rightarrow> ConfigCounter_ref \<Rightarrow> heap \<Rightarrow> registry_result \<times> ConfigCounter_ref \<times> heap" where
  "do_registry_call (Identifier config) self h = (Identifier_result (ref_config_id config self h), self, h)"
| "do_registry_call (Insert config) self h =
     (case ref_add_config config self h of (r, self', h') \<Rightarrow> (Insert_result r, self', h'))"

fun do_registry_calls ::
  "registry_call list \<Rightarrow> ConfigCounter_ref \<Rightarrow> heap \<Rightarrow> registry_result list \<times> ConfigCounter_ref \<times> heap" where
  "do_registry_calls [] self h = ([], self, h)"
| "do_registry_calls (c # cs) self h =
     (case do_registry_call c self h of
        (r, self', h') \<Rightarrow>
          (case do_registry_calls cs self' h' of (rs, self'', h'') \<Rightarrow> (r # rs, self'', h'')))"

section \<open>Predicates on text\<close>

text \<open>
  Used to state that the text of a tuple can be read back: a decimal digit, a text that
  does not go on with a digit, and the two quotes of \<^verbatim>\<open>repr\<close>.
\<close>

definition is_digit :: "char \<Rightarrow> bool" where
  "is_digit c \<longleftrightarrow> c \<in> set ''0123456789''"

definition no_digit_ahead :: "string \<Rightarrow> bool" where
  "no_digit_ahead r \<longleftrightarrow> (case r of [] \<Rightarrow> True | c # _ \<Rightarrow> \<not> is_digit c)"

definition is_quote :: "char \<Rightarrow> bool" where
  "is_quote q \<longleftrightarrow> q = CHR 0x27 \<or> q = CHR 0x22"

text \<open>
  The values whose \<^verbatim>\<open>repr\<close> is computed above, and the configurations that hold
  no other value.
\<close>

fun plain_value :: "pyval \<Rightarrow> bool" where
  "plain_value (PObject _ _ _) = False"
| "plain_value _ = True"

definition plain_config :: "config \<Rightarrow> bool" where
  "plain_config c = list_all (\<lambda>(k, v). plain_value v) c"

section \<open>The invariant of the registry\<close>

text \<open>
  What every \<^verbatim>\<open>ConfigCounter\<close> built by its constructor and changed by
  \<^verbatim>\<open>add_config\<close> satisfies: the counter is the number of keys, and every ID in the
  table is below it.
\<close>

definition counter_inv :: "ConfigCounter \<Rightarrow> bool" where
  "counter_inv s \<longleftrightarrow>
     finite (dom (config_id_dict s)) \<and>
     config_counter s = int (card (dom (config_id_dict s))) \<and>
     (\<forall>k i. config_id_dict s k = Some i \<longrightarrow> 0 \<le> i \<and> i < config_counter s)"

text \<open>
  The part of it that keeps IDs apart: every ID in the table is below the counter. A
  registry that \<^verbatim>\<open>set_mutable_state\<close> has given another counter or table, or
  whose table another registry writes, need not satisfy it.
\<close>

definition ids_below_counter :: "ConfigCounter \<Rightarrow> bool" where
  "ids_below_counter s \<longleftrightarrow> (\<forall>k i. config_id_dict s k = Some i \<longrightarrow> i < config_counter s)"

section \<open>Evaluation\<close>

lemmas eval_simps =
  add_config_def config_id_def to_key_def ConfigCounter_init_def py_str_tuple_def
  py_str_int_def py_digits.simps digit_char_def dict_get_def remove_resource_def Let_def

section \<open>\<^verbatim>\<open>add_config\<close>: duplicates and dense IDs\<close>

lemma add_config_present:
  assumes "to_key config (configspace_ext self) = (k, d, r)" "config_id_dict self k = Some i"
  shows "add_config config self = (Inl (AssertionError (ConfigAlreadyAssigned d i)), self)"
  using assms by (simp add: add_config_def)

lemma add_config_absent:
  assumes "to_key config (configspace_ext self) = (k, d, r)" "config_id_dict self k = None"
  shows "add_config config self =
    (Inr (d, r), self\<lparr>config_id_dict := (config_id_dict self)(k \<mapsto> config_counter self),
                     config_counter := config_counter self + 1\<rparr>)"
  using assms by (simp add: add_config_def)

lemma add_config_success:
  assumes "add_config c s = (Inr r, s')"
  shows "config_id_dict s (fst (to_key c (configspace_ext s))) = None"
    and "s' = s\<lparr>config_id_dict :=
                   (config_id_dict s)(fst (to_key c (configspace_ext s)) \<mapsto> config_counter s),
                 config_counter := config_counter s + 1\<rparr>"
    and "r = snd (to_key c (configspace_ext s))"
  using assms
  by (cases "to_key c (configspace_ext s)"; auto simp: add_config_def split: option.splits)+

lemma add_config_ext [simp]: "configspace_ext (snd (add_config c self)) = configspace_ext self"
  by (cases "to_key c (configspace_ext self)")
     (auto simp: add_config_def split: option.splits)

lemma add_config_keeps:
  "config_id_dict s k = Some i \<Longrightarrow> config_id_dict (snd (add_config c s)) k = Some i"
  by (cases "to_key c (configspace_ext s)")
     (auto simp: add_config_def split: option.splits)

lemma add_config_counter:
  "config_counter (snd (add_config c s)) =
     config_counter s + (if isl (fst (add_config c s)) then 0 else 1)"
  by (cases "to_key c (configspace_ext s)")
     (auto simp: add_config_def split: option.splits)

lemma counter_inv_init: "counter_inv (ConfigCounter_init ext)"
  by (simp add: counter_inv_def ConfigCounter_init_def)

lemma counter_inv_bound:
  "counter_inv s \<Longrightarrow> config_id_dict s k = Some i \<Longrightarrow> 0 \<le> i \<and> i < config_counter s"
  unfolding counter_inv_def by blast

lemma counter_inv_add_config:
  assumes "counter_inv s"
  shows "counter_inv (snd (add_config c s))"
proof (cases "to_key c (configspace_ext s)")
  case (fields k d r)
  show ?thesis
  proof (cases "config_id_dict s k")
    case None
    then have nk: "k \<notin> dom (config_id_dict s)" by (simp add: domIff)
    from assms have f: "finite (dom (config_id_dict s))"
      and c: "config_counter s = int (card (dom (config_id_dict s)))"
      and r: "\<And>k i. config_id_dict s k = Some i \<Longrightarrow> 0 \<le> i \<and> i < config_counter s"
      by (auto simp: counter_inv_def)
    have "card (dom ((config_id_dict s)(k \<mapsto> config_counter s))) =
            Suc (card (dom (config_id_dict s)))"
      using f nk by simp
    then show ?thesis
      using f c r by (auto simp: add_config_absent [OF fields None] counter_inv_def dest: r)
  next
    case (Some i)
    with assms show ?thesis by (simp add: add_config_present [OF fields Some])
  qed
qed

lemma counter_inv_add_configs:
  "counter_inv s \<Longrightarrow> counter_inv (snd (add_configs cs s))"
proof (induction cs arbitrary: s)
  case Nil then show ?case by simp
next
  case (Cons c cs)
  from Cons.IH [OF counter_inv_add_config [OF Cons.prems, of c]]
  show ?case by (simp split: prod.splits) (metis snd_conv)
qed

lemma add_configs_counter:
  "config_counter (snd (add_configs cs s)) =
     config_counter s + int (length (filter (\<lambda>r. \<not> isl r) (fst (add_configs cs s))))"
proof (induction cs arbitrary: s)
  case Nil then show ?case by simp
next
  case (Cons c cs)
  show ?case
    using Cons.IH [of "snd (add_config c s)"] add_config_counter [of c s]
    by (auto split: prod.splits)
qed

lemma add_configs_keeps:
  "config_id_dict s k = Some i \<Longrightarrow> config_id_dict (snd (add_configs cs s)) k = Some i"
proof (induction cs arbitrary: s)
  case Nil then show ?case by simp
next
  case (Cons c cs)
  from Cons.IH [OF add_config_keeps [OF Cons.prems, of c]]
  show ?case by (simp split: prod.splits) (metis snd_conv)
qed

lemma add_configs_ext [simp]:
  "configspace_ext (snd (add_configs cs s)) = configspace_ext s"
proof (induction cs arbitrary: s)
  case Nil then show ?case by simp
next
  case (Cons c cs)
  from Cons [of "snd (add_config c s)"] show ?case
    by (simp split: prod.splits) (metis add_config_ext snd_conv)
qed

lemma add_configs_append:
  "add_configs (xs @ ys) s =
     (fst (add_configs xs s) @ fst (add_configs ys (snd (add_configs xs s))),
      snd (add_configs ys (snd (add_configs xs s))))"
  by (induction xs arbitrary: s) (auto split: prod.splits)

lemma add_configs_take:
  "fst (add_configs (take j cs) s) = take j (fst (add_configs cs s))"
proof (induction cs arbitrary: s j)
  case Nil then show ?case by simp
next
  case (Cons c cs)
  show ?case
  proof (cases j)
    case 0 then show ?thesis by simp
  next
    case (Suc j')
    with Cons [of j' "snd (add_config c s)"] show ?thesis
      by (auto split: prod.splits)
  qed
qed

lemma ids_below_counter_init: "ids_below_counter (ConfigCounter_init ext)"
  by (simp add: ids_below_counter_def ConfigCounter_init_def)

lemma ids_below_counter_add_config:
  assumes "ids_below_counter s"
  shows "ids_below_counter (snd (add_config c s))"
proof (cases "to_key c (configspace_ext s)")
  case (fields k d r)
  show ?thesis
  proof (cases "config_id_dict s k")
    case None
    from assms have "config_id_dict s k' = Some i \<Longrightarrow> i < config_counter s + 1" for k' i
      unfolding ids_below_counter_def by fastforce
    then show ?thesis
      by (simp add: add_config_absent [OF fields None] ids_below_counter_def)
  next
    case (Some i)
    with assms show ?thesis by (simp add: add_config_present [OF fields Some])
  qed
qed

lemma ids_below_counter_add_configs:
  "ids_below_counter s \<Longrightarrow> ids_below_counter (snd (add_configs cs s))"
proof (induction cs arbitrary: s)
  case Nil then show ?case by simp
next
  case (Cons c cs)
  from Cons.IH [OF ids_below_counter_add_config [OF Cons.prems, of c]]
  show ?case by (simp split: prod.splits) (metis snd_conv)
qed

text \<open>
  C3, as the code has it. Whatever the registry holds, \<^verbatim>\<open>add_config\<close> of a
  configuration whose key is in the table raises the assertion "Config ... already has been
  assigned a config ID" and leaves the registry as it was: no ID comes back and nothing is
  counted. An insertion that succeeds gives the key the counter's value. That value is new
  in every registry whose stored IDs are all below the counter: the registry the
  constructor builds is one, and any \<^verbatim>\<open>add_config\<close> calls on one leave one. A
  registry restored from a snapshot, or sharing its table through one, need not be one,
  and there an insertion can succeed with an ID that another key has.
\<close>

theorem add_config_duplicate_fails:
  "(config_id_dict self (fst (to_key config (configspace_ext self))) = Some i \<longrightarrow>
      add_config config self =
        (Inl (AssertionError
               (ConfigAlreadyAssigned (fst (snd (to_key config (configspace_ext self)))) i)),
         self)) \<and>
   (add_config config self = (Inr r, self') \<longrightarrow>
      config_id_dict self' (fst (to_key config (configspace_ext self))) =
        Some (config_counter self)) \<and>
   (ids_below_counter self \<longrightarrow> config_counter self \<notin> ran (config_id_dict self)) \<and>
   ids_below_counter (ConfigCounter_init ext) \<and>
   (ids_below_counter self \<longrightarrow> ids_below_counter (snd (add_configs cfgs self)))"
proof (intro conjI impI)
  assume "config_id_dict self (fst (to_key config (configspace_ext self))) = Some i"
  then show "add_config config self =
        (Inl (AssertionError
               (ConfigAlreadyAssigned (fst (snd (to_key config (configspace_ext self)))) i)),
         self)"
    by (cases "to_key config (configspace_ext self)") (simp add: add_config_def)
next
  assume a: "add_config config self = (Inr r, self')"
  from add_config_success(2) [OF a]
  show "config_id_dict self' (fst (to_key config (configspace_ext self))) =
      Some (config_counter self)" by simp
next
  assume "ids_below_counter self"
  then show "config_counter self \<notin> ran (config_id_dict self)"
    unfolding ids_below_counter_def ran_def by fastforce
next
  show "ids_below_counter (ConfigCounter_init ext)" by (rule ids_below_counter_init)
next
  assume "ids_below_counter self"
  then show "ids_below_counter (snd (add_configs cfgs self))"
    by (rule ids_below_counter_add_configs)
qed

theorem add_config_duplicate_fails_witness:
  "add_config [(''x'', PInt 1)] (snd (add_configs [[(''x'', PInt 1)]] (ConfigCounter_init None))) =
     (Inl (AssertionError (ConfigAlreadyAssigned [(''x'', PInt 1)] 0)),
      snd (add_configs [[(''x'', PInt 1)]] (ConfigCounter_init None))) \<and>
   config_id_dict
     (snd (add_config [(''x'', PInt 2)]
        (snd (add_configs [[(''x'', PInt 1)]] (ConfigCounter_init None))))) ''(2,)'' = Some 1 \<and>
   1 \<notin> ran (config_id_dict (snd (add_configs [[(''x'', PInt 1)]] (ConfigCounter_init None)))) \<and>
   ids_below_counter (snd (add_configs [[(''x'', PInt 1)]] (ConfigCounter_init None)))"
proof -
  let ?s = "snd (add_configs [[(''x'', PInt 1)]] (ConfigCounter_init None))"
  have inv: "ids_below_counter ?s"
    using add_config_duplicate_fails
            [where self = "ConfigCounter_init None" and cfgs = "[[(''x'', PInt 1)]]" and ext = None]
    by blast
  have fresh: "config_counter ?s \<notin> ran (config_id_dict ?s)"
    using add_config_duplicate_fails [where self = ?s] inv by blast
  show ?thesis
    using inv fresh
      add_config_duplicate_fails
        [where self = ?s and config = "[(''x'', PInt 1)]" and i = 0, THEN conjunct1]
      add_config_duplicate_fails
        [where self = ?s and config = "[(''x'', PInt 2)]" and r = "([(''x'', PInt 2)], PNone)"
           and self' = "snd (add_config [(''x'', PInt 2)] ?s)",
         THEN conjunct2, THEN conjunct1]
    by (simp add: eval_simps)
qed

text \<open>
  The snapshot \<^verbatim>\<open>{'config_counter': 0, 'config_id': {'(1,)': 0}}\<close>, restored into a
  fresh registry: the next insertion succeeds with the ID 0 of the key \<^verbatim>\<open>(1,)\<close>.
\<close>

lemma restored_snapshot_reuses_id:
  "add_config [(''x'', PInt 2)]
     (set_mutable_state \<lparr>state_config_counter = 0, state_config_id = [''(1,)'' \<mapsto> 0]\<rparr>
        (ConfigCounter_init None)) =
   (Inr ([(''x'', PInt 2)], PNone),
    \<lparr>config_counter = 1, config_id_dict = [''(1,)'' \<mapsto> 0, ''(2,)'' \<mapsto> 0],
     configspace_ext = None\<rparr>)"
  by (simp add: eval_simps set_mutable_state_def)

lemma add_configs_Cons_fst:
  "fst (add_configs (c # cs) s) = fst (add_config c s) # fst (add_configs cs (snd (add_config c s)))"
  by (simp split: prod.splits)

lemma add_configs_Cons_snd:
  "snd (add_configs (c # cs) s) = snd (add_configs cs (snd (add_config c s)))"
  by (simp split: prod.splits)

lemma add_configs_length: "length (fst (add_configs xs s)) = length xs"
  by (induction xs arbitrary: s) (simp_all add: add_configs_Cons_fst del: add_configs.simps(2))

text \<open>
  C4. From the constructor (counter 0, empty table), after any sequence of
  \<^verbatim>\<open>add_config\<close> calls the counter is the number of calls that succeeded and the
  number of keys in the table; the key of the call at position \<open>j\<close>, when that call
  succeeded, holds the number of successful calls before it (the n-th successful insertion
  has ID n - 1); and the counter is the next ID: an insertion that succeeds now stores it
  and adds one to it.
\<close>

theorem ids_dense_in_call_order:
  "config_counter (snd (add_configs cfgs (ConfigCounter_init ext))) =
     int (length (filter (\<lambda>r. \<not> isl r) (fst (add_configs cfgs (ConfigCounter_init ext))))) \<and>
   config_counter (snd (add_configs cfgs (ConfigCounter_init ext))) =
     int (card (dom (config_id_dict (snd (add_configs cfgs (ConfigCounter_init ext)))))) \<and>
   (\<forall>j < length cfgs.
      \<not> isl (fst (add_configs cfgs (ConfigCounter_init ext)) ! j) \<longrightarrow>
      config_id_dict (snd (add_configs cfgs (ConfigCounter_init ext))) (fst (to_key (cfgs ! j) ext)) =
        Some (int (length (filter (\<lambda>r. \<not> isl r)
                     (take j (fst (add_configs cfgs (ConfigCounter_init ext)))))))) \<and>
   (add_config c (snd (add_configs cfgs (ConfigCounter_init ext))) = (Inr r, s') \<longrightarrow>
      config_id_dict s' (fst (to_key c ext)) =
        Some (config_counter (snd (add_configs cfgs (ConfigCounter_init ext)))) \<and>
      config_counter s' = config_counter (snd (add_configs cfgs (ConfigCounter_init ext))) + 1)"
proof (intro conjI allI impI)
  let ?init = "ConfigCounter_init ext"
  show "config_counter (snd (add_configs cfgs ?init)) =
     int (length (filter (\<lambda>r. \<not> isl r) (fst (add_configs cfgs ?init))))"
    using add_configs_counter [of cfgs ?init] by (simp add: ConfigCounter_init_def)
  have "counter_inv (snd (add_configs cfgs ?init))"
    by (rule counter_inv_add_configs [OF counter_inv_init])
  then show "config_counter (snd (add_configs cfgs ?init)) =
     int (card (dom (config_id_dict (snd (add_configs cfgs ?init)))))"
    by (simp add: counter_inv_def)
  fix j
  assume j: "j < length cfgs" and ok: "\<not> isl (fst (add_configs cfgs ?init) ! j)"
  let ?before = "snd (add_configs (take j cfgs) ?init)"
  let ?c = "cfgs ! j"
  have split: "cfgs = take j cfgs @ ?c # drop (Suc j) cfgs"
    using j by (simp add: id_take_nth_drop)
  have run: "add_configs cfgs ?init =
      (fst (add_configs (take j cfgs) ?init) @ fst (add_configs (?c # drop (Suc j) cfgs) ?before),
       snd (add_configs (?c # drop (Suc j) cfgs) ?before))"
    using add_configs_append [of "take j cfgs" "?c # drop (Suc j) cfgs" ?init] split by simp
  have "fst (add_configs cfgs ?init) ! j = fst (add_config ?c ?before)"
    using j by (subst run) (simp add: nth_append add_configs_length add_configs_Cons_fst del: add_configs.simps(2))
  with ok obtain r s' where step: "add_config ?c ?before = (Inr r, s')"
    by (cases "add_config ?c ?before"; cases "fst (add_config ?c ?before)") auto
  have e: "configspace_ext ?before = ext" by (simp add: ConfigCounter_init_def)
  have cnt: "config_counter ?before =
      int (length (filter (\<lambda>r. \<not> isl r) (take j (fst (add_configs cfgs ?init)))))"
    using add_configs_counter [of "take j cfgs" ?init]
    by (simp add: ConfigCounter_init_def add_configs_take)
  from add_config_success(2) [OF step] e
  have "config_id_dict s' (fst (to_key ?c ext)) = Some (config_counter ?before)" by simp
  from add_configs_keeps [OF this, of "drop (Suc j) cfgs"]
  have "config_id_dict (snd (add_configs (?c # drop (Suc j) cfgs) ?before)) (fst (to_key ?c ext)) =
      Some (config_counter ?before)"
    using step by (simp add: add_configs_Cons_snd del: add_configs.simps(2))
  with cnt show "config_id_dict (snd (add_configs cfgs ?init)) (fst (to_key ?c ext)) =
        Some (int (length (filter (\<lambda>r. \<not> isl r) (take j (fst (add_configs cfgs ?init))))))"
    by (subst run) simp
next
  let ?s = "snd (add_configs cfgs (ConfigCounter_init ext))"
  assume a: "add_config c ?s = (Inr r, s')"
  have e: "configspace_ext ?s = ext" by (simp add: ConfigCounter_init_def)
  from add_config_success(2) [OF a] e
  show "config_id_dict s' (fst (to_key c ext)) = Some (config_counter ?s)"
    and "config_counter s' = config_counter ?s + 1"
    by simp_all
qed

theorem ids_dense_in_call_order_witness:
  "config_counter (snd (add_configs [[(''x'', PInt 1)], [(''x'', PInt 1)], [(''x'', PInt 2)]]
      (ConfigCounter_init None))) = 2 \<and>
   card (dom (config_id_dict (snd (add_configs [[(''x'', PInt 1)], [(''x'', PInt 1)], [(''x'', PInt 2)]]
      (ConfigCounter_init None))))) = 2 \<and>
   config_id_dict (snd (add_configs [[(''x'', PInt 1)], [(''x'', PInt 1)], [(''x'', PInt 2)]]
      (ConfigCounter_init None))) ''(2,)'' = Some 1 \<and>
   config_counter (snd (add_config [(''x'', PInt 2)]
      (snd (add_configs [[(''x'', PInt 1)], [(''x'', PInt 1)]] (ConfigCounter_init None))))) = 2"
  using ids_dense_in_call_order
      [where cfgs = "[[(''x'', PInt 1)], [(''x'', PInt 1)], [(''x'', PInt 2)]]" and ext = None,
       THEN conjunct1]
    ids_dense_in_call_order
      [where cfgs = "[[(''x'', PInt 1)], [(''x'', PInt 1)], [(''x'', PInt 2)]]" and ext = None,
       THEN conjunct2, THEN conjunct1]
    ids_dense_in_call_order
      [where cfgs = "[[(''x'', PInt 1)], [(''x'', PInt 1)], [(''x'', PInt 2)]]" and ext = None,
       THEN conjunct2, THEN conjunct2, THEN conjunct1, rule_format, of 2]
    ids_dense_in_call_order
      [where cfgs = "[[(''x'', PInt 1)], [(''x'', PInt 1)]]" and ext = None
         and c = "[(''x'', PInt 2)]" and r = "([(''x'', PInt 2)], PNone)"
         and s' = "snd (add_config [(''x'', PInt 2)]
                     (snd (add_configs [[(''x'', PInt 1)], [(''x'', PInt 1)]] (ConfigCounter_init None))))",
       THEN conjunct2, THEN conjunct2, THEN conjunct2]
  by (simp add: eval_simps)

section \<open>Keys and identifiers\<close>

lemma alist_eq_by_keys:
  "map fst xs = map fst ys \<Longrightarrow> map_of xs = map_of ys \<Longrightarrow> distinct (map fst xs) \<Longrightarrow> xs = ys"
proof (induction xs arbitrary: ys)
  case Nil then show ?case by simp
next
  case (Cons x xs)
  then obtain y ys' where ys: "ys = y # ys'" by (cases ys) auto
  with Cons.prems have k: "fst x = fst y" and ks: "map fst xs = map fst ys'" by auto
  have meq: "map_of (x # xs) a = map_of (y # ys') a" for a
    using Cons.prems(2) unfolding ys by (rule fun_cong)
  from meq [of "fst x"] k have v: "snd x = snd y" by simp
  have "map_of xs = map_of ys'"
  proof
    fix a
    show "map_of xs a = map_of ys' a"
    proof (cases "a = fst x")
      case True
      with Cons.prems ks ys have "a \<notin> fst ` set xs" "a \<notin> fst ` set ys'"
        by (auto simp flip: set_map)
      then have "map_of xs a = None" "map_of ys' a = None"
        by (simp_all add: map_of_eq_None_iff)
      then show ?thesis by simp
    next
      case False
      with meq [of a] k show ?thesis by simp
    qed
  qed
  moreover from Cons.prems(3) have "distinct (map fst xs)" by simp
  ultimately have "xs = ys'" using Cons.IH [OF ks] by blast
  with k v ys show ?case by (simp add: prod_eq_iff)
qed

lemma sort_key_fst_unique:
  assumes "distinct (map fst xs)" "distinct (map fst ys)" "map_of xs = map_of ys"
  shows "sort_key fst xs = sort_key fst ys"
proof -
  from assms have s: "set xs = set ys" by (simp add: map_of_inject_set)
  have d: "distinct (map fst (sort_key fst xs))" "distinct (map fst (sort_key fst ys))"
    using assms by (simp_all add: distinct_map inj_on_def)
  have "set (map fst (sort_key fst xs)) = set (map fst (sort_key fst ys))"
    using s by simp
  then have k: "map fst (sort_key fst xs) = map fst (sort_key fst ys)"
    using d by (intro sorted_distinct_set_unique) simp_all
  have "map_of (sort_key fst xs) = map_of (sort_key fst ys)"
    using d s by (simp add: map_of_inject_set)
  from alist_eq_by_keys [OF k this d(1)] show ?thesis .
qed

lemma to_key_fst:
  "fst (to_key c ext) = py_str_tuple (map snd (sort_key fst (fst (snd (to_key c ext)))))"
  by (auto simp: to_key_def Let_def split: option.splits)

lemma to_key_wf: "wf_config c \<Longrightarrow> wf_config (fst (snd (to_key c ext)))"
  by (auto simp: to_key_def Let_def wf_config_def remove_resource_def distinct_map_filter
           split: option.splits)

lemma to_key_same_dict:
  assumes "wf_config c1" "wf_config c2"
    and "map_of (fst (snd (to_key c1 ext))) = map_of (fst (snd (to_key c2 ext)))"
  shows "fst (to_key c1 ext) = fst (to_key c2 ext)"
proof -
  have "sort_key fst (fst (snd (to_key c1 ext))) = sort_key fst (fst (snd (to_key c2 ext)))"
    using to_key_wf [OF assms(1), of ext] to_key_wf [OF assms(2), of ext] assms(3)
    unfolding wf_config_def by (rule sort_key_fst_unique)
  then show ?thesis by (simp add: to_key_fst)
qed

text \<open>
  C5. Let \<open>c1\<close> and \<open>c2\<close> be configurations for which \<^verbatim>\<open>_to_key\<close> returns the
  same dictionary of non-resource entries and different resources. After one successful
  \<^verbatim>\<open>add_config(c1)\<close>, \<^verbatim>\<open>config_id\<close> succeeds on both with the same base ID (the
  counter at the insertion): the bare number where the resource is \<^verbatim>\<open>None\<close>, and the
  number, a colon and the resource otherwise.
\<close>

theorem config_id_same_base:
  assumes "wf_config c1" "wf_config c2"
    and "map_of (fst (snd (to_key c1 (configspace_ext self)))) =
         map_of (fst (snd (to_key c2 (configspace_ext self))))"
    and "snd (snd (to_key c1 (configspace_ext self))) \<noteq> snd (snd (to_key c2 (configspace_ext self)))"
    and "add_config c1 self = (Inr r, self')"
  shows "config_id c1 self' =
           Inr (py_str_int (config_counter self) @
                (if snd (snd (to_key c1 (configspace_ext self))) = PNone then []
                 else '':'' @ py_str (snd (snd (to_key c1 (configspace_ext self)))))) \<and>
         config_id c2 self' =
           Inr (py_str_int (config_counter self) @
                (if snd (snd (to_key c2 (configspace_ext self))) = PNone then []
                 else '':'' @ py_str (snd (snd (to_key c2 (configspace_ext self))))))"
proof -
  let ?ext = "configspace_ext self"
  have k: "fst (to_key c1 ?ext) = fst (to_key c2 ?ext)"
    using assms(1-3) by (rule to_key_same_dict)
  from add_config_success(2) [OF assms(5)]
  have e: "configspace_ext self' = ?ext"
    and t: "config_id_dict self' (fst (to_key c1 ?ext)) = Some (config_counter self)"
    by simp_all
  show ?thesis
    using t k e
    by (cases "to_key c1 ?ext"; cases "to_key c2 ?ext") (auto simp: config_id_def)
qed

theorem config_id_same_base_witness:
  "config_id [(''x'', PInt 1), (''resource'', PInt 5)]
     (snd (add_config [(''x'', PInt 1), (''resource'', PInt 5)]
        (ConfigCounter_init (Some \<lparr>resource_attr_name = ''resource''\<rparr>)))) = Inr ''0:5'' \<and>
   config_id [(''x'', PInt 1)]
     (snd (add_config [(''x'', PInt 1), (''resource'', PInt 5)]
        (ConfigCounter_init (Some \<lparr>resource_attr_name = ''resource''\<rparr>)))) = Inr ''0''"
  using config_id_same_base
     [where ?c1.0 = "[(''x'', PInt 1), (''resource'', PInt 5)]" and ?c2.0 = "[(''x'', PInt 1)]"
        and self = "ConfigCounter_init (Some \<lparr>resource_attr_name = ''resource''\<rparr>)"
        and r = "([(''x'', PInt 1)], PInt 5)"
        and self' = "snd (add_config [(''x'', PInt 1), (''resource'', PInt 5)]
        (ConfigCounter_init (Some \<lparr>resource_attr_name = ''resource''\<rparr>)))"]
  by (simp add: eval_simps wf_config_def)

section \<open>\<^verbatim>\<open>set_final_config\<close> with a resource\<close>

lemma to_key_base:
  assumes "to_key config ext = (key, base, resource)"
  shows "to_key base ext = (key, base, PNone)"
proof (cases ext)
  case None
  with assms show ?thesis by (auto simp: to_key_def Let_def)
next
  case (Some e)
  have gone: "map_of (remove_resource e config) (resource_attr_name e) = None"
    by (auto simp: remove_resource_def map_of_eq_None_iff)
  show ?thesis
  proof (cases "dict_get config (resource_attr_name e) = PNone")
    case True
    with assms Some show ?thesis by (auto simp: to_key_def Let_def)
  next
    case False
    with assms Some have b: "base = remove_resource e config"
      and k: "key = py_str_tuple (map snd (sort_key fst base))"
      by (auto simp: to_key_def Let_def)
    from gone b have "dict_get base (resource_attr_name e) = PNone"
      by (simp add: dict_get_def)
    with Some k show ?thesis by (simp add: to_key_def Let_def)
  qed
qed

lemmas printer_simps =
  DebugLogPrinter_init_def start_get_config_def set_final_config_def write_block_def
  empty_info_def config_entries_def newline_def block_header_def part_if_present_def
  set_state_def set_targets_def set_gp_params_def printer_config_id_def
  List.map_filter_simps

text \<open>
  C9. In an open block, \<^verbatim>\<open>set_final_config\<close> of a configuration with a resource
  whose key is not in the table raises "config must not be extended", after
  \<^verbatim>\<open>add_config\<close> has stored the key and counted it: the object it leaves has the key
  in the table and the counter one higher, and there \<^verbatim>\<open>add_config\<close> and
  \<^verbatim>\<open>set_final_config\<close> of the base configuration raise the duplicate assertion.
\<close>

theorem set_final_config_extended_not_atomic:
  assumes "get_config_type self = Some gc_type"
    and "to_key config (configspace_ext (counter_obj self)) = (key, base, resource)"
    and "resource \<noteq> PNone"
    and "config_id_dict (counter_obj self) key = None"
  shows "set_final_config config self =
           (Inl (AssertionError ConfigMustNotBeExtended),
            self\<lparr>counter_obj := (counter_obj self)
              \<lparr>config_id_dict := (config_id_dict (counter_obj self))(key \<mapsto> config_counter (counter_obj self)),
               config_counter := config_counter (counter_obj self) + 1\<rparr>\<rparr>) \<and>
         add_config base (counter_obj (snd (set_final_config config self))) =
           (Inl (AssertionError (ConfigAlreadyAssigned base (config_counter (counter_obj self)))),
            counter_obj (snd (set_final_config config self))) \<and>
         set_final_config base (snd (set_final_config config self)) =
           (Inl (AssertionError (ConfigAlreadyAssigned base (config_counter (counter_obj self)))),
            snd (set_final_config config self))"
proof -
  let ?cc = "counter_obj self"
  let ?cc' = "?cc\<lparr>config_id_dict := (config_id_dict ?cc)(key \<mapsto> config_counter ?cc),
                   config_counter := config_counter ?cc + 1\<rparr>"
  have first: "set_final_config config self =
      (Inl (AssertionError ConfigMustNotBeExtended), self\<lparr>counter_obj := ?cc'\<rparr>)"
    using assms by (simp add: set_final_config_def add_config_absent [OF assms(2,4)])
  have kb: "to_key base (configspace_ext ?cc') = (key, base, PNone)"
    using to_key_base [OF assms(2)] by simp
  have dup: "add_config base ?cc' =
      (Inl (AssertionError (ConfigAlreadyAssigned base (config_counter ?cc))), ?cc')"
    by (rule add_config_present [OF kb]) simp
  have third: "set_final_config base (self\<lparr>counter_obj := ?cc'\<rparr>) =
      (Inl (AssertionError (ConfigAlreadyAssigned base (config_counter ?cc))),
       self\<lparr>counter_obj := ?cc'\<rparr>)"
    using assms(1) dup by (simp add: set_final_config_def)
  show ?thesis
    unfolding first snd_conv using dup third by simp
qed

theorem set_final_config_extended_not_atomic_witness:
  "set_final_config [(''x'', PInt 1), (''resource'', PInt 5)]
     (snd (start_get_config ''random''
        (DebugLogPrinter_init (Some \<lparr>resource_attr_name = ''resource''\<rparr>)))) =
     (Inl (AssertionError ConfigMustNotBeExtended),
      \<lparr>counter_obj = \<lparr>config_counter = 1, config_id_dict = [''(1,)'' \<mapsto> 0],
                      configspace_ext = Some \<lparr>resource_attr_name = ''resource''\<rparr>\<rparr>,
       block_info = empty_info, get_config_type = Some ''random'',
       logger_info = [''Starting get_config[random] for config_id 0'']\<rparr>) \<and>
   fst (add_config [(''x'', PInt 1)]
     (counter_obj (snd (set_final_config [(''x'', PInt 1), (''resource'', PInt 5)]
        (snd (start_get_config ''random''
           (DebugLogPrinter_init (Some \<lparr>resource_attr_name = ''resource''\<rparr>)))))))) =
     Inl (AssertionError (ConfigAlreadyAssigned [(''x'', PInt 1)] 0))"
  using set_final_config_extended_not_atomic
    [where self = "snd (start_get_config ''random''
        (DebugLogPrinter_init (Some \<lparr>resource_attr_name = ''resource''\<rparr>)))"
       and config = "[(''x'', PInt 1), (''resource'', PInt 5)]"
       and gc_type = "''random''" and key = "''(1,)''" and base = "[(''x'', PInt 1)]"
       and resource = "PInt 5"]
  by (simp add: eval_simps printer_simps)

section \<open>\<^verbatim>\<open>write_block\<close>\<close>

lemmas setter_defs =
  start_get_config_def set_final_config_def set_state_def set_targets_def set_gp_params_def
  set_fantasies_def set_init_config_def set_num_evaluations_def append_extra_def
  printer_set_mutable_state_def set_configspace_ext_def

lemma write_block_unfinalized:
  "get_config_type self \<noteq> None \<Longrightarrow> info_final_config (block_info self) = None \<Longrightarrow>
   write_block self = (Inl (KeyError ''final_config''), self)"
  by (auto simp: write_block_def Let_def)

lemma write_block_idle:
  "get_config_type self = None \<Longrightarrow> write_block self = (Inl (AssertionError NoBlockOpen), self)"
  by (simp add: write_block_def)

lemma write_block_cases:
  "snd (write_block self) = self \<or>
   (get_config_type (snd (write_block self)) = None \<and> block_info (snd (write_block self)) = empty_info)"
  by (auto simp: write_block_def Let_def split: option.splits prod.splits)

lemma do_call_idle_unfinalized:
  assumes "get_config_type self = None \<longrightarrow> info_final_config (block_info self) = None"
  shows "get_config_type (snd (do_call c self)) = None \<longrightarrow>
         info_final_config (block_info (snd (do_call c self))) = None"
proof (cases c)
  case Write_block
  with assms write_block_cases [of self] show ?thesis by (auto simp: empty_info_def)
next
  case (Set_final_config config)
  with assms show ?thesis
    by (auto simp: set_final_config_def Let_def split: option.splits prod.splits sum.splits)
qed (use assms in \<open>auto simp: setter_defs empty_info_def Let_def
       split: option.splits prod.splits sum.splits if_splits\<close>)

lemma do_calls_idle_unfinalized:
  "(get_config_type self = None \<longrightarrow> info_final_config (block_info self) = None) \<Longrightarrow>
   get_config_type (do_calls cs self) = None \<longrightarrow>
   info_final_config (block_info (do_calls cs self)) = None"
proof (induction cs arbitrary: self)
  case Nil then show ?case by simp
next
  case (Cons c cs)
  from Cons.IH [OF do_call_idle_unfinalized [OF Cons.prems, of c]] show ?case by simp
qed

lemma do_call_open_unfinalized:
  assumes "get_config_type self \<noteq> None" "info_final_config (block_info self) = None"
    and "\<not> is_Set_final_config c"
  shows "get_config_type (snd (do_call c self)) \<noteq> None \<and>
         info_final_config (block_info (snd (do_call c self))) = None"
proof (cases c)
  case Write_block
  with assms show ?thesis by (simp add: write_block_unfinalized)
next
  case (Set_final_config config)
  with assms show ?thesis by simp
qed (use assms in \<open>auto simp: setter_defs empty_info_def Let_def
       split: option.splits prod.splits sum.splits if_splits\<close>)

lemma do_calls_open_unfinalized:
  "get_config_type self \<noteq> None \<Longrightarrow> info_final_config (block_info self) = None \<Longrightarrow>
   \<forall>c \<in> set cs. \<not> is_Set_final_config c \<Longrightarrow>
   get_config_type (do_calls cs self) \<noteq> None \<and>
   info_final_config (block_info (do_calls cs self)) = None"
proof (induction cs arbitrary: self)
  case Nil then show ?case by simp
next
  case (Cons c cs)
  from Cons.prems have "\<not> is_Set_final_config c" by simp
  from do_call_open_unfinalized [OF Cons.prems(1,2) this] Cons.prems(3)
  show ?case using Cons.IH by simp
qed

lemma do_calls_append: "do_calls (xs @ ys) self = do_calls ys (do_calls xs self)"
  by (induction xs arbitrary: self) simp_all

text \<open>
  C2, as the code has it. \<^verbatim>\<open>write_block\<close> in an open block that has no \<^verbatim>\<open>final_config\<close>
  raises \<^verbatim>\<open>KeyError('final_config')\<close>: nothing is written to the logger and the
  block stays open with its fields. With no block open it raises the assertion "No block
  open right now". The third part says that the first is the case of a block in which
  \<^verbatim>\<open>set_final_config\<close> was never called: after any calls that end with no block
  open, a \<^verbatim>\<open>start_get_config\<close> and any calls other than \<^verbatim>\<open>set_final_config\<close>.
\<close>

theorem write_block_without_final_config:
  "(get_config_type self \<noteq> None \<and> info_final_config (block_info self) = None \<longrightarrow>
      write_block self = (Inl (KeyError ''final_config''), self)) \<and>
   (get_config_type self = None \<longrightarrow>
      write_block self = (Inl (AssertionError NoBlockOpen), self)) \<and>
   (get_config_type (do_calls history (DebugLogPrinter_init ext)) = None \<and>
    gc_type \<in> {''random'', ''BO''} \<and> (\<forall>c \<in> set block. \<not> is_Set_final_config c) \<longrightarrow>
      write_block (do_calls (history @ Start_get_config gc_type # block) (DebugLogPrinter_init ext)) =
        (Inl (KeyError ''final_config''),
         do_calls (history @ Start_get_config gc_type # block) (DebugLogPrinter_init ext)))"
proof (intro conjI impI)
  assume "get_config_type self \<noteq> None \<and> info_final_config (block_info self) = None"
  then show "write_block self = (Inl (KeyError ''final_config''), self)"
    by (simp add: write_block_unfinalized)
next
  assume "get_config_type self = None"
  then show "write_block self = (Inl (AssertionError NoBlockOpen), self)"
    by (rule write_block_idle)
next
  let ?idle = "do_calls history (DebugLogPrinter_init ext)"
  let ?opened = "snd (start_get_config gc_type ?idle)"
  assume a: "get_config_type ?idle = None \<and> gc_type \<in> {''random'', ''BO''} \<and>
    (\<forall>c \<in> set block. \<not> is_Set_final_config c)"
  have "get_config_type (DebugLogPrinter_init ext) = None \<longrightarrow>
        info_final_config (block_info (DebugLogPrinter_init ext)) = None"
    by (simp add: DebugLogPrinter_init_def empty_info_def)
  from do_calls_idle_unfinalized [OF this, of history] a
  have "info_final_config (block_info ?idle) = None" by simp
  with a have "get_config_type ?opened \<noteq> None" "info_final_config (block_info ?opened) = None"
    by (auto simp: start_get_config_def)
  from do_calls_open_unfinalized [OF this, of block] a
  have "get_config_type (do_calls block ?opened) \<noteq> None \<and>
        info_final_config (block_info (do_calls block ?opened)) = None" by simp
  then show "write_block (do_calls (history @ Start_get_config gc_type # block) (DebugLogPrinter_init ext)) =
        (Inl (KeyError ''final_config''),
         do_calls (history @ Start_get_config gc_type # block) (DebugLogPrinter_init ext))"
    by (simp add: do_calls_append write_block_unfinalized)
qed

theorem write_block_without_final_config_witness:
  "write_block (do_calls ([] @ Start_get_config ''BO'' # [Set_targets ''[0.5]'', Append_extra ''note''])
       (DebugLogPrinter_init None)) =
     (Inl (KeyError ''final_config''),
      do_calls ([] @ Start_get_config ''BO'' # [Set_targets ''[0.5]'', Append_extra ''note''])
       (DebugLogPrinter_init None)) \<and>
   write_block (DebugLogPrinter_init None) =
     (Inl (AssertionError NoBlockOpen), DebugLogPrinter_init None) \<and>
   write_block (snd (start_get_config ''random'' (DebugLogPrinter_init None))) =
     (Inl (KeyError ''final_config''), snd (start_get_config ''random'' (DebugLogPrinter_init None)))"
  using write_block_without_final_config
     [where history = "[]" and ext = None and gc_type = "''BO''"
        and block = "[Set_targets ''[0.5]'', Append_extra ''note'']", THEN conjunct2, THEN conjunct2]
    write_block_without_final_config
     [where self = "DebugLogPrinter_init None", THEN conjunct2, THEN conjunct1]
    write_block_without_final_config
     [where self = "snd (start_get_config ''random'' (DebugLogPrinter_init None))", THEN conjunct1]
  by (simp add: DebugLogPrinter_init_def start_get_config_def empty_info_def)

theorem write_block_unfinalized_counterexample:
  "write_block (snd (start_get_config ''random'' (DebugLogPrinter_init None))) =
     (Inl (KeyError ''final_config''),
      snd (start_get_config ''random'' (DebugLogPrinter_init None)))"
  by (simp add: write_block_def DebugLogPrinter_init_def start_get_config_def empty_info_def)

text \<open>A \<^verbatim>\<open>set_final_config\<close> that returns has stored the field, in an open block.\<close>

lemma set_final_config_sets_field:
  assumes "set_final_config config self = (Inr (), self')"
  shows "get_config_type self' = get_config_type self \<and> get_config_type self \<noteq> None \<and>
         info_final_config (block_info self') =
           Some (py_join newline
                   (config_entries (fst (snd (to_key config (configspace_ext (counter_obj self)))))))"
  using assms
  by (cases "to_key config (configspace_ext (counter_obj self))")
     (auto simp: set_final_config_def add_config_def Let_def split: option.splits if_splits)

text \<open>
  C7. In an open \<^verbatim>\<open>BO\<close> block that has its \<^verbatim>\<open>final_config\<close>,
  \<^verbatim>\<open>write_block\<close> succeeds whichever of \<^verbatim>\<open>state\<close>, \<^verbatim>\<open>targets\<close> and
  \<^verbatim>\<open>params\<close> are missing: for each missing one, in this order, it writes the record
  \<^verbatim>\<open>debug_log.write_block: '<name>' part is missing!\<close> to the logger; the report that
  follows holds the header, the final configuration and the optional parts that are
  present, joined by newlines; and the object is left with no block open and an empty
  \<^verbatim>\<open>block_info\<close>.
\<close>

theorem write_block_BO_missing_fields:
  assumes "get_config_type self = Some ''BO''"
    and "info_final_config (block_info self) = Some final"
  shows "write_block self =
     (Inr (),
      self\<lparr>logger_info := logger_info self @
              map (\<lambda>name. ''debug_log.write_block: '' @ [CHR 0x27] @ name @ [CHR 0x27] @
                           '' part is missing!'')
                (map fst
                   (filter (\<lambda>(name, v). v = None)
                      [(''state'', info_state (block_info self)),
                       (''targets'', info_targets (block_info self)),
                       (''params'', info_params (block_info self))])) @
              [py_join [CHR 0x0A]
                 (List.map_filter id
                    [Some (''['' @ py_str_int (config_counter (counter_obj self) - 1) @
                           '': BO]'' @
                           (case info_num_evals (block_info self) of
                              None \<Rightarrow> []
                            | Some n \<Rightarrow> '' ('' @ py_str_int n @ '' evaluations)'')),
                     Some final,
                     info_start_config (block_info self),
                     info_state (block_info self),
                     info_targets (block_info self),
                     info_params (block_info self),
                     info_fantasies (block_info self),
                     info_extra (block_info self)])],
           get_config_type := None,
           block_info :=
             \<lparr>info_final_config = None, info_state = None, info_targets = None,
              info_params = None, info_fantasies = None, info_start_config = None,
              info_num_evals = None, info_extra = None\<rparr>\<rparr>)"
  using assms
  by (simp add: write_block_def Let_def part_if_present_def List.map_filter_simps
        missing_msg_def block_header_def newline_def empty_info_def
      split: option.splits)

theorem write_block_BO_missing_fields_witness:
  "write_block
     (do_calls [Start_get_config ''BO'', Set_final_config [(''x'', PInt 3)], Set_targets ''[0.5]'']
        (DebugLogPrinter_init None)) =
     (Inr (),
      \<lparr>counter_obj = \<lparr>config_counter = 1, config_id_dict = [''(3,)'' \<mapsto> 0], configspace_ext = None\<rparr>,
       block_info =
         \<lparr>info_final_config = None, info_state = None, info_targets = None,
          info_params = None, info_fantasies = None, info_start_config = None,
          info_num_evals = None, info_extra = None\<rparr>,
       get_config_type = None,
       logger_info =
         [''Starting get_config[BO] for config_id 0'',
          ''debug_log.write_block: '' @ [CHR 0x27] @ ''state'' @ [CHR 0x27] @ '' part is missing!'',
          ''debug_log.write_block: '' @ [CHR 0x27] @ ''params'' @ [CHR 0x27] @ '' part is missing!'',
          ''[0: BO]'' @ [CHR 0x0A] @ ''x: 3'' @ [CHR 0x0A] @ ''Targets: [0.5]'']\<rparr>)"
  using write_block_BO_missing_fields
    [where self = "do_calls [Start_get_config ''BO'', Set_final_config [(''x'', PInt 3)], Set_targets ''[0.5]'']
        (DebugLogPrinter_init None)" and final = "''x: 3''"]
  by (simp add: eval_simps DebugLogPrinter_init_def start_get_config_def set_final_config_def
        set_targets_def empty_info_def config_entries_def newline_def List.map_filter_simps)

text \<open>
  C8, as the code has it. In an open block that has its \<^verbatim>\<open>final_config\<close>, \<^verbatim>\<open>write_block\<close>
  writes the report as one record, the last it writes: in a \<^verbatim>\<open>BO\<close> block one record
  "... part is missing!" precedes it for each of \<^verbatim>\<open>state\<close>, \<^verbatim>\<open>targets\<close>,
  \<^verbatim>\<open>params\<close> that is missing, so the report is the only record in a
  \<^verbatim>\<open>random\<close> block and when the three are set. The parts of the report are, in
  this order and joined by newlines: the header, the final configuration, then in a
  \<^verbatim>\<open>BO\<close> block the start configuration, state, targets, params and fantasies,
  then the extra text, each of the optional ones only if it is set. The header is
  \<^verbatim>\<open>[<id>: <kind>]\<close>, followed by \<^verbatim>\<open> (<n> evaluations)\<close> when the number of
  evaluations is set, with the counter minus one for the ID.
\<close>

theorem write_block_report:
  assumes "get_config_type self = Some gc_type"
    and "info_final_config (block_info self) = Some final"
  shows "write_block self =
     (Inr (),
      self\<lparr>logger_info := logger_info self @
              (if gc_type = ''BO'' then
                 map (missing_msg \<circ> fst)
                   (filter (\<lambda>(name, v). v = None)
                      [(''state'', info_state (block_info self)),
                       (''targets'', info_targets (block_info self)),
                       (''params'', info_params (block_info self))])
               else []) @
              [py_join newline
                 (List.map_filter id
                    ([Some (''['' @ py_str_int (config_counter (counter_obj self) - 1) @ '': '' @
                            gc_type @ '']'' @
                            (case info_num_evals (block_info self) of
                               None \<Rightarrow> []
                             | Some n \<Rightarrow> '' ('' @ py_str_int n @ '' evaluations)'')),
                      Some final] @
                     (if gc_type = ''BO'' then
                        [info_start_config (block_info self),
                         info_state (block_info self),
                         info_targets (block_info self),
                         info_params (block_info self),
                         info_fantasies (block_info self)]
                      else []) @
                     [info_extra (block_info self)]))],
           get_config_type := None,
           block_info := empty_info\<rparr>)"
  using assms
  by (simp add: write_block_def Let_def part_if_present_def List.map_filter_simps block_header_def
           split: option.splits)

theorem write_block_report_witness:
  "write_block
     (do_calls [Start_get_config ''random'', Set_final_config [(''x'', PInt 1), (''y'', PInt 2)]]
        (DebugLogPrinter_init None)) =
     (Inr (),
      \<lparr>counter_obj = \<lparr>config_counter = 1, config_id_dict = [''(1, 2)'' \<mapsto> 0], configspace_ext = None\<rparr>,
       block_info = empty_info,
       get_config_type = None,
       logger_info =
         [''Starting get_config[random] for config_id 0'',
          ''[0: random]'' @ newline @ ''x: 1'' @ newline @ ''y: 2'']\<rparr>)"
  using write_block_report
    [where self = "do_calls [Start_get_config ''random'', Set_final_config [(''x'', PInt 1), (''y'', PInt 2)]]
        (DebugLogPrinter_init None)" and final = "''x: 1'' @ newline @ ''y: 2''" and gc_type = "''random''"]
  by (simp add: eval_simps DebugLogPrinter_init_def start_get_config_def set_final_config_def
        empty_info_def config_entries_def newline_def List.map_filter_simps)

theorem write_block_one_record_counterexample:
  "logger_info (snd (write_block
      (do_calls [Start_get_config ''BO'', Set_final_config [(''x'', PInt 3)]]
         (DebugLogPrinter_init None)))) =
   logger_info (do_calls [Start_get_config ''BO'', Set_final_config [(''x'', PInt 3)]]
         (DebugLogPrinter_init None)) @
   [missing_msg ''state'', missing_msg ''targets'', missing_msg ''params'',
    ''[0: BO]'' @ newline @ ''x: 3'']"
  by (simp add: eval_simps DebugLogPrinter_init_def start_get_config_def set_final_config_def
        empty_info_def config_entries_def newline_def write_block_def block_header_def
        part_if_present_def)

section \<open>\<^verbatim>\<open>find_class\<close>\<close>

lemma restricted_loads_globals_allowed:
  "restricted_loads_globals gs = Inr objs \<Longrightarrow>
   (\<forall>(m, n) \<in> set gs. m = ''builtins'' \<and> n \<in> safe_builtins) \<and> objs = map (Builtin \<circ> snd) gs"
proof (induction gs arbitrary: objs)
  case Nil then show ?case by simp
next
  case (Cons g gs)
  obtain m n where g: "g = (m, n)" by (cases g)
  from Cons.prems g obtain obj rest where
    f: "find_class m n = Inr obj" and r: "restricted_loads_globals gs = Inr rest"
    and o: "objs = obj # rest"
    by (auto split: sum.splits)
  from f have "m = ''builtins'' \<and> n \<in> safe_builtins \<and> obj = Builtin n"
    by (auto simp: find_class_def split: if_splits)
  with Cons.IH [OF r] g o show ?case by simp
qed

text \<open>
  C10. \<^verbatim>\<open>find_class(module, name)\<close> returns the builtin of that name when the module
  is \<^verbatim>\<open>builtins\<close> and the name is one of \<^verbatim>\<open>range\<close>, \<^verbatim>\<open>complex\<close>,
  \<^verbatim>\<open>set\<close>, \<^verbatim>\<open>frozenset\<close>, \<^verbatim>\<open>slice\<close>, and raises \<^verbatim>\<open>UnpicklingError\<close>
  for every other pair. So a \<^verbatim>\<open>restricted_loads\<close> that does not raise has resolved
  globals of that list only, each to the builtin of its name.
\<close>

theorem find_class_allow_list:
  "find_class module_name name =
     (if module_name = ''builtins'' \<and>
         name \<in> {''range'', ''complex'', ''set'', ''frozenset'', ''slice''}
      then Inr (Builtin name)
      else Inl (UnpicklingError
                  (''global '' @ [CHR 0x27] @ module_name @ ''.'' @ name @ [CHR 0x27] @
                   '' is forbidden''))) \<and>
   (restricted_loads_globals gs = Inr objs \<longrightarrow>
      (\<forall>(m, n) \<in> set gs.
         m = ''builtins'' \<and> n \<in> {''range'', ''complex'', ''set'', ''frozenset'', ''slice''}) \<and>
      objs = map (Builtin \<circ> snd) gs)"
  using restricted_loads_globals_allowed [of gs objs]
  by (simp add: find_class_def safe_builtins_def)

theorem find_class_allow_list_witness:
  "find_class ''builtins'' ''frozenset'' = Inr (Builtin ''frozenset'') \<and>
   find_class ''os'' ''system'' =
     Inl (UnpicklingError
            (''global '' @ [CHR 0x27] @ ''os.system'' @ [CHR 0x27] @ '' is forbidden'')) \<and>
   find_class ''builtins'' ''eval'' =
     Inl (UnpicklingError
            (''global '' @ [CHR 0x27] @ ''builtins.eval'' @ [CHR 0x27] @ '' is forbidden'')) \<and>
   restricted_loads_globals [(''builtins'', ''set''), (''builtins'', ''range'')] =
     Inr [Builtin ''set'', Builtin ''range'']"
  using find_class_allow_list [of "''builtins''" "''frozenset''", THEN conjunct1]
    find_class_allow_list [of "''os''" "''system''", THEN conjunct1]
    find_class_allow_list [of "''builtins''" "''eval''", THEN conjunct1]
    find_class_allow_list [of _ _ "[(''builtins'', ''set''), (''builtins'', ''range'')]"
      "[Builtin ''set'', Builtin ''range'']", THEN conjunct2]
  by (simp add: find_class_def safe_builtins_def)

section \<open>The text of a tuple determines its values\<close>

lemma digit_char_is_digit: "d < 10 \<Longrightarrow> is_digit (digit_char d)"
  unfolding is_digit_def digit_char_def by (rule nth_mem) simp

lemma digit_char_inj: "d < 10 \<Longrightarrow> e < 10 \<Longrightarrow> digit_char d = digit_char e \<Longrightarrow> d = e"
  unfolding digit_char_def by (subst (asm) nth_eq_iff_index_eq) simp_all

lemma py_digits_digits: "py_digits n \<noteq> [] \<and> (\<forall>c \<in> set (py_digits n). is_digit c)"
proof (induction n rule: py_digits.induct)
  case (1 n)
  show ?case
  proof (cases "n < 10")
    case True
    then show ?thesis by (subst py_digits.simps, subst py_digits.simps) (simp add: digit_char_is_digit)
  next
    case False
    with 1 show ?thesis
      by (subst py_digits.simps, subst py_digits.simps) (simp add: digit_char_is_digit)
  qed
qed

lemma py_digits_inj: "py_digits n = py_digits m \<Longrightarrow> n = m"
proof (induction n arbitrary: m rule: py_digits.induct)
  case (1 n)
  show ?case
  proof (cases "n < 10")
    case n: True
    show ?thesis
    proof (cases "m < 10")
      case True
      with n "1.prems" show ?thesis
        by (simp add: py_digits.simps [of n] py_digits.simps [of m] digit_char_inj)
    next
      case False
      with n "1.prems" py_digits_digits [of "m div 10"] show ?thesis
        by (simp add: py_digits.simps [of n] py_digits.simps [of m])
    qed
  next
    case n: False
    show ?thesis
    proof (cases "m < 10")
      case True
      with n "1.prems" py_digits_digits [of "n div 10"] show ?thesis
        by (simp add: py_digits.simps [of n] py_digits.simps [of m])
    next
      case False
      with n "1.prems" have d: "py_digits (n div 10) = py_digits (m div 10)"
        and r: "digit_char (n mod 10) = digit_char (m mod 10)"
        by (simp_all add: py_digits.simps [of n] py_digits.simps [of m])
      from "1.IH" [OF n d] have "n div 10 = m div 10" .
      moreover from r have "n mod 10 = m mod 10" by (rule digit_char_inj [rotated 2]) simp_all
      ultimately show ?thesis by (metis div_mult_mod_eq)
    qed
  qed
qed

lemma digits_prefix_unique:
  assumes "xs @ r1 = ys @ r2" "\<forall>c \<in> set xs. is_digit c" "\<forall>c \<in> set ys. is_digit c"
    "no_digit_ahead r1" "no_digit_ahead r2"
  shows "xs = ys \<and> r1 = r2"
proof -
  have tw: "takeWhile is_digit (zs @ r) = zs" if "\<forall>c \<in> set zs. is_digit c" "no_digit_ahead r" for zs r
    using that by (cases r) (simp_all add: no_digit_ahead_def takeWhile_append2)
  from assms(1) have "takeWhile is_digit (xs @ r1) = takeWhile is_digit (ys @ r2)" by simp
  with tw [OF assms(2,4)] tw [OF assms(3,5)] have "xs = ys" by simp
  with assms(1) show ?thesis by simp
qed

lemma py_str_int_hd:
  "py_str_int i \<noteq> [] \<and> (hd (py_str_int i) = CHR ''-'' \<or> is_digit (hd (py_str_int i)))"
  using py_digits_digits [of "nat i"] by (cases "py_digits (nat i)") (auto simp: py_str_int_def)

lemma py_str_int_unique:
  assumes "py_str_int i @ r1 = py_str_int j @ r2" "no_digit_ahead r1" "no_digit_ahead r2"
  shows "i = j \<and> r1 = r2"
proof -
  have neg: False if "a < 0" "\<not> b < 0" "py_str_int a @ s1 = py_str_int b @ s2" for a b s1 s2
  proof -
    from py_digits_digits [of "nat b"] obtain c cs where c: "py_digits (nat b) = c # cs" "is_digit c"
      by (cases "py_digits (nat b)") auto
    with that show False by (auto simp: py_str_int_def is_digit_def)
  qed
  show ?thesis
  proof (cases "i < 0")
    case i: True
    show ?thesis
    proof (cases "j < 0")
      case True
      with i assms(1) have "py_digits (nat (- i)) @ r1 = py_digits (nat (- j)) @ r2"
        by (simp add: py_str_int_def)
      from digits_prefix_unique [OF this _ _ assms(2,3)] py_digits_digits
      have "py_digits (nat (- i)) = py_digits (nat (- j))" and r: "r1 = r2" by blast+
      from py_digits_inj [OF this(1)] i True r show ?thesis by simp
    next
      case False
      from neg [OF i False assms(1)] show ?thesis ..
    qed
  next
    case i: False
    show ?thesis
    proof (cases "j < 0")
      case True
      from neg [OF True i assms(1) [symmetric]] show ?thesis ..
    next
      case False
      with i assms(1) have "py_digits (nat i) @ r1 = py_digits (nat j) @ r2"
        by (simp add: py_str_int_def)
      from digits_prefix_unique [OF this _ _ assms(2,3)] py_digits_digits
      have "py_digits (nat i) = py_digits (nat j)" and r: "r1 = r2" by blast+
      from py_digits_inj [OF this(1)] i False r show ?thesis by simp
    qed
  qed
qed

lemma hex_char_inj: "a < 16 \<Longrightarrow> b < 16 \<Longrightarrow> hex_char a = hex_char b \<Longrightarrow> a = b"
  unfolding hex_char_def by (subst (asm) nth_eq_iff_index_eq) simp_all

lemma of_char_lt_256: "(of_char c :: nat) < 256"
proof -
  have "(of_char c :: nat) mod 256 < 256" by (rule mod_less_divisor) simp
  then show ?thesis by simp
qed

lemma hex_pair_inj:
  assumes "hex_char (of_char c div 16) = hex_char (of_char d div 16)"
    and "hex_char (of_char c mod 16) = hex_char (of_char d mod 16)"
  shows "c = d"
proof -
  have "(of_char c :: nat) div 16 < 16" "(of_char d :: nat) div 16 < 16"
    using of_char_lt_256 [of c] of_char_lt_256 [of d] by (simp_all add: less_mult_imp_div_less)
  from hex_char_inj [OF this assms(1)] have "(of_char c :: nat) div 16 = of_char d div 16" .
  moreover from assms(2) have "(of_char c :: nat) mod 16 = of_char d mod 16"
    by (rule hex_char_inj [rotated 2]) simp_all
  ultimately have "(of_char c :: nat) = of_char d" by (metis div_mult_mod_eq)
  then show ?thesis by simp
qed

lemma py_quote_is_quote: "is_quote (py_quote s)"
  by (simp add: py_quote_def is_quote_def)

lemma py_escape_forms [consumes 1, case_names quoted tab nl cr hex plain]:
  assumes "is_quote q"
  obtains (quoted) "py_escape q c = [CHR 0x5C, c]" "c = q \<or> c = CHR 0x5C"
  | (tab) "py_escape q c = [CHR 0x5C, CHR ''t'']" "c = CHR 0x09"
  | (nl) "py_escape q c = [CHR 0x5C, CHR ''n'']" "c = CHR 0x0A"
  | (cr) "py_escape q c = [CHR 0x5C, CHR ''r'']" "c = CHR 0x0D"
  | (hex) "py_escape q c =
      [CHR 0x5C, CHR ''x'', hex_char (of_char c div 16), hex_char (of_char c mod 16)]"
      "c \<noteq> q" "c \<noteq> CHR 0x5C"
  | (plain) "py_escape q c = [c]" "c \<noteq> q" "c \<noteq> CHR 0x5C"
proof -
  consider "c = q \<or> c = CHR 0x5C"
    | "c \<noteq> q" "c \<noteq> CHR 0x5C" "c = CHR 0x09"
    | "c \<noteq> q" "c \<noteq> CHR 0x5C" "c = CHR 0x0A"
    | "c \<noteq> q" "c \<noteq> CHR 0x5C" "c = CHR 0x0D"
    | "c \<noteq> q" "c \<noteq> CHR 0x5C" "c \<noteq> CHR 0x09" "c \<noteq> CHR 0x0A" "c \<noteq> CHR 0x0D"
    by blast
  then show thesis
  proof cases
    case 1
    then show thesis by (intro quoted) (simp_all add: py_escape_def)
  next
    case 2
    then show thesis by (intro tab) (simp_all add: py_escape_def)
  next
    case 3
    then show thesis by (intro nl) (simp_all add: py_escape_def)
  next
    case 4
    then show thesis by (intro cr) (simp_all add: py_escape_def)
  next
    case 5
    show thesis
    proof (cases "(of_char c :: nat) < 32 \<or> (127 \<le> (of_char c :: nat) \<and> (of_char c :: nat) \<le> 160)
              \<or> (of_char c :: nat) = 173")
      case True
      with 5 show thesis by (intro hex) (simp_all add: py_escape_def)
    next
      case False
      with 5 show thesis by (intro plain) (simp_all add: py_escape_def)
    qed
  qed
qed

lemma py_escape_hd:
  assumes "is_quote q"
  shows "py_escape q c \<noteq> [] \<and> hd (py_escape q c) \<noteq> q"
  using assms
  by (cases rule: py_escape_forms [where c = c]) (use assms in \<open>auto simp: is_quote_def\<close>)

lemma py_escape_unique:
  assumes q: "is_quote q" and eq: "py_escape q c @ r1 = py_escape q d @ r2"
  shows "c = d \<and> r1 = r2"
  using q
proof (cases rule: py_escape_forms [where c = c])
  case c: quoted
  show ?thesis
    using q eq c
    by (cases rule: py_escape_forms [where c = d]) (use q in \<open>auto simp: is_quote_def\<close>)
next
  case c: tab
  show ?thesis
    using q eq c
    by (cases rule: py_escape_forms [where c = d]) (use q in \<open>auto simp: is_quote_def\<close>)
next
  case c: nl
  show ?thesis
    using q eq c
    by (cases rule: py_escape_forms [where c = d]) (use q in \<open>auto simp: is_quote_def\<close>)
next
  case c: cr
  show ?thesis
    using q eq c
    by (cases rule: py_escape_forms [where c = d]) (use q in \<open>auto simp: is_quote_def\<close>)
next
  case c: hex
  show ?thesis
    using q eq c
    by (cases rule: py_escape_forms [where c = d])
       (use q in \<open>auto simp: is_quote_def dest: hex_pair_inj\<close>)
next
  case c: plain
  show ?thesis
    using q eq c
    by (cases rule: py_escape_forms [where c = d]) (use q in \<open>auto simp: is_quote_def\<close>)
qed

lemma py_escape_body_unique:
  assumes "is_quote q"
    and "concat (map (py_escape q) s1) @ q # r1 = concat (map (py_escape q) s2) @ q # r2"
  shows "s1 = s2 \<and> r1 = r2"
  using assms(2)
proof (induction s1 arbitrary: s2)
  case Nil
  show ?case
  proof (cases s2)
    case Nil with Nil.prems show ?thesis by simp
  next
    case (Cons d ds)
    with Nil.prems py_escape_hd [OF assms(1), of d] show ?thesis
      by (cases "py_escape q d") auto
  qed
next
  case (Cons c cs)
  show ?case
  proof (cases s2)
    case Nil
    with Cons.prems py_escape_hd [OF assms(1), of c] show ?thesis
      by (cases "py_escape q c") auto
  next
    case s2: (Cons d ds)
    with Cons.prems have
      "py_escape q c @ (concat (map (py_escape q) cs) @ q # r1) =
       py_escape q d @ (concat (map (py_escape q) ds) @ q # r2)" by simp
    from py_escape_unique [OF assms(1) this] Cons.IH [of ds] s2 show ?thesis by simp
  qed
qed

lemma py_repr_str_unique:
  assumes "py_repr_str s1 @ r1 = py_repr_str s2 @ r2"
  shows "s1 = s2 \<and> r1 = r2"
proof -
  from assms have q: "py_quote s1 = py_quote s2"
    and b: "concat (map (py_escape (py_quote s1)) s1) @ py_quote s1 # r1 =
            concat (map (py_escape (py_quote s2)) s2) @ py_quote s2 # r2"
    by (auto simp: py_repr_str_def Let_def)
  from b q py_escape_body_unique [OF py_quote_is_quote [of s2], of s1 r1 s2 r2]
  show ?thesis by simp
qed

lemma py_repr_hd:
  "plain_value v \<Longrightarrow>
   py_repr v \<noteq> [] \<and>
   (case v of
      PNone \<Rightarrow> hd (py_repr v) = CHR ''N''
    | PBool b \<Rightarrow> hd (py_repr v) = CHR ''T'' \<or> hd (py_repr v) = CHR ''F''
    | PInt i \<Rightarrow> hd (py_repr v) = CHR ''-'' \<or> is_digit (hd (py_repr v))
    | PStr s \<Rightarrow> is_quote (hd (py_repr v))
    | PObject _ _ _ \<Rightarrow> False)"
  using py_str_int_hd py_quote_is_quote
  by (cases v) (auto simp: py_repr_str_def Let_def)

lemma py_repr_hd_not:
  "plain_value v \<Longrightarrow>
   hd (py_repr v) \<noteq> CHR '')'' \<and> hd (py_repr v) \<noteq> CHR '','' \<and> hd (py_repr v) \<noteq> CHR '' ''"
  using py_repr_hd [of v]
  by (cases v) (auto simp: is_digit_def is_quote_def)

lemma py_repr_unique:
  assumes "py_repr v @ r1 = py_repr w @ r2" "no_digit_ahead r1" "no_digit_ahead r2"
    and pv: "plain_value v" and pw: "plain_value w"
  shows "v = w \<and> r1 = r2"
proof -
  from assms(1) py_repr_hd [OF pv] py_repr_hd [OF pw]
  have h: "hd (py_repr v) = hd (py_repr w)"
    by (cases "py_repr v"; cases "py_repr w") auto
  show ?thesis
  proof (cases v)
    case PNone
    with h py_repr_hd [OF pw] pw assms(1) show ?thesis
      by (cases w) (auto simp: is_digit_def is_quote_def split: if_splits)
  next
    case (PBool b)
    with h py_repr_hd [OF pw] pw assms(1) show ?thesis
      by (cases w) (auto simp: is_digit_def is_quote_def split: if_splits)
  next
    case (PInt i)
    with h py_repr_hd [OF pw] py_repr_hd [OF pv] pw obtain j where w: "w = PInt j"
      by (cases w) (auto simp: is_digit_def is_quote_def split: if_splits)
    with PInt assms py_str_int_unique [of i r1 j r2] show ?thesis by simp
  next
    case (PStr s)
    with h py_repr_hd [OF pw] py_repr_hd [OF pv] pw obtain t where w: "w = PStr t"
      by (cases w) (auto simp: is_digit_def is_quote_def split: if_splits)
    with PStr assms py_repr_str_unique [of s r1 t r2] show ?thesis by simp
  next
    case (PObject n r t)
    with pv show ?thesis by simp
  qed
qed

lemma py_join_Cons:
  "py_join sep (x # xs) = x @ (if xs = [] then [] else sep @ py_join sep xs)"
  by (cases xs) simp_all

lemma py_join_reprs_unique:
  assumes "py_join '', '' (map py_repr xs) @ '')'' = py_join '', '' (map py_repr ys) @ '')''"
    and "xs \<noteq> []" "ys \<noteq> []" "list_all plain_value xs" "list_all plain_value ys"
  shows "xs = ys"
  using assms
proof (induction xs arbitrary: ys)
  case Nil then show ?case by simp
next
  case (Cons x xs)
  from Cons.prems obtain y ys' where ys: "ys = y # ys'" by (cases ys) auto
  with Cons.prems have p: "plain_value x" "plain_value y" "list_all plain_value xs"
    "list_all plain_value ys'" by simp_all
  let ?r1 = "(if xs = [] then [] else '', '' @ py_join '', '' (map py_repr xs)) @ '')''"
  let ?r2 = "(if ys' = [] then [] else '', '' @ py_join '', '' (map py_repr ys')) @ '')''"
  from Cons.prems(1) ys have "py_repr x @ ?r1 = py_repr y @ ?r2"
    by (simp add: py_join_Cons)
  moreover have "no_digit_ahead ?r1" "no_digit_ahead ?r2"
    by (simp_all add: no_digit_ahead_def is_digit_def)
  ultimately have xy: "x = y" and r: "?r1 = ?r2" using py_repr_unique p(1,2) by blast+
  show ?case
  proof (cases "xs = []")
    case True
    with r xy ys show ?thesis by (cases "ys' = []") auto
  next
    case False
    with r have ne: "ys' \<noteq> []" by (cases "ys' = []") auto
    with r False have "py_join '', '' (map py_repr xs) @ '')'' = py_join '', '' (map py_repr ys') @ '')''"
      by simp
    from Cons.IH [OF this False ne p(3,4)] xy ys show ?thesis by simp
  qed
qed

lemma py_str_tuple_forms:
  "py_str_tuple [] = ''()''"
  "py_str_tuple [v] = ''('' @ py_repr v @ '',)''"
  "py_str_tuple (v # w # vs) = ''('' @ py_join '', '' (map py_repr (v # w # vs)) @ '')''"
  by (simp_all add: py_str_tuple_def)

lemma py_str_tuple_inj:
  assumes "py_str_tuple vs = py_str_tuple ws"
    and pv: "list_all plain_value vs" and pw: "list_all plain_value ws"
  shows "vs = ws"
proof -
  have empty: False if "py_str_tuple [] = py_str_tuple (x # xs)" "plain_value x" for x xs
  proof -
    from that have "'')'' = py_repr x @ (if xs = [] then '',)'' else '', '' @ py_join '', '' (map py_repr xs) @ '')'')"
      by (cases xs) (simp_all add: py_str_tuple_forms)
    with py_repr_hd [OF that(2)] py_repr_hd_not [OF that(2)] show False
      by (cases "py_repr x") auto
  qed
  have single: False
    if "py_str_tuple [x] = py_str_tuple (y # z # zs)" "plain_value x" "plain_value y" for x y z zs
  proof -
    from that have "py_repr x @ '',)'' = py_repr y @ ('', '' @ py_join '', '' (map py_repr (z # zs)) @ '')'')"
      by (simp add: py_str_tuple_forms)
    from py_repr_unique [OF this _ _ that(2,3)] show False
      by (simp add: no_digit_ahead_def is_digit_def)
  qed
  consider "vs = []" | v where "vs = [v]" | v v' vs' where "vs = v # v' # vs'"
    by (cases vs rule: remdups_adj.cases) auto
  then show ?thesis
  proof cases
    case 1
    with assms empty show ?thesis by (cases ws) auto
  next
    case 2
    consider "ws = []" | w where "ws = [w]" | w w' ws' where "ws = w # w' # ws'"
      by (cases ws rule: remdups_adj.cases) auto
    then show ?thesis
    proof cases
      case 1
      with 2 assms empty [of v "[]"] show ?thesis by simp
    next
      case (2 w)
      with \<open>vs = [v]\<close> assms have "py_repr v @ '',)'' = py_repr w @ '',)''"
        by (simp add: py_str_tuple_forms)
      from py_repr_unique [OF this] 2 \<open>vs = [v]\<close> pv pw show ?thesis
        by (simp add: no_digit_ahead_def is_digit_def)
    next
      case 3
      with 2 assms single [of v] show ?thesis by auto
    qed
  next
    case 3
    consider "ws = []" | w where "ws = [w]" | w w' ws' where "ws = w # w' # ws'"
      by (cases ws rule: remdups_adj.cases) auto
    then show ?thesis
    proof cases
      case 1
      with 3 assms empty [of v "v' # vs'"] show ?thesis by simp
    next
      case (2 w)
      with 3 assms single [of w v v' vs'] show ?thesis by simp
    next
      case (3 w w' ws')
      with \<open>vs = v # v' # vs'\<close> assms
      have "py_join '', '' (map py_repr vs) @ '')'' = py_join '', '' (map py_repr ws) @ '')''"
        by (simp add: py_str_tuple_forms)
      from py_join_reprs_unique [OF this _ _ pv pw] 3 \<open>vs = v # v' # vs'\<close> show ?thesis by simp
    qed
  qed
qed

lemma to_key_plain:
  "plain_config c \<Longrightarrow> list_all plain_value (map snd (sort_key fst (fst (snd (to_key c ext)))))"
  by (auto simp: to_key_def Let_def plain_config_def remove_resource_def list_all_iff
           split: option.splits)

lemma same_names_values:
  assumes "distinct (map fst xs)" "distinct (map fst ys)" "fst ` set xs = fst ` set ys"
    and "map snd (sort_key fst xs) = map snd (sort_key fst ys)"
  shows "map_of xs = map_of ys"
proof -
  have d: "distinct (map fst (sort_key fst xs))" "distinct (map fst (sort_key fst ys))"
    using assms(1,2) by (simp_all add: distinct_map inj_on_def)
  have "set (map fst (sort_key fst xs)) = set (map fst (sort_key fst ys))"
    using assms(3) by simp
  then have "map fst (sort_key fst xs) = map fst (sort_key fst ys)"
    using d by (intro sorted_distinct_set_unique) simp_all
  with assms(4) have "sort_key fst xs = sort_key fst ys"
    by (metis zip_map_fst_snd)
  then have "set xs = set ys" by (metis set_sort)
  with assms(1,2) show ?thesis by (simp add: map_of_inject_set)
qed

text \<open>
  C1, as the code has it. The key of a configuration is the text of the tuple of its
  \<^emph>\<open>values\<close>, without the names, in the order of the names, after the resource entry is
  removed (when an extended configuration space is given and the entry is there with a
  value other than \<^verbatim>\<open>None\<close>). So configurations whose resource-stripped dictionaries
  are identical, or only have the same values in the order of their names, have the same
  key, whatever the values are. The converse needs the text to tell the values, and then
  the names: for configurations of plain values (\<^verbatim>\<open>None\<close>, bool, int, str) the keys
  are equal exactly when the value sequences are, and the stripped dictionaries are
  identical exactly when they have the same names and the same key.
\<close>

theorem to_key_values_only:
  "fst (to_key c ext) = py_str_tuple (map snd (sort_key fst (fst (snd (to_key c ext))))) \<and>
   fst (snd (to_key c ext)) =
     (case ext of
        None \<Rightarrow> c
      | Some e \<Rightarrow>
          if dict_get c (resource_attr_name e) \<noteq> PNone
          then filter (\<lambda>(k, v). k \<noteq> resource_attr_name e) c else c) \<and>
   (wf_config c1 \<and> wf_config c2 \<and>
    map_of (fst (snd (to_key c1 ext))) = map_of (fst (snd (to_key c2 ext))) \<longrightarrow>
      fst (to_key c1 ext) = fst (to_key c2 ext)) \<and>
   (map snd (sort_key fst (fst (snd (to_key c1 ext)))) =
    map snd (sort_key fst (fst (snd (to_key c2 ext)))) \<longrightarrow>
      fst (to_key c1 ext) = fst (to_key c2 ext)) \<and>
   (plain_config c1 \<and> plain_config c2 \<longrightarrow>
      (fst (to_key c1 ext) = fst (to_key c2 ext) \<longleftrightarrow>
         map snd (sort_key fst (fst (snd (to_key c1 ext)))) =
         map snd (sort_key fst (fst (snd (to_key c2 ext)))))) \<and>
   (plain_config c1 \<and> plain_config c2 \<and> wf_config c1 \<and> wf_config c2 \<longrightarrow>
      (map_of (fst (snd (to_key c1 ext))) = map_of (fst (snd (to_key c2 ext))) \<longleftrightarrow>
         fst ` set (fst (snd (to_key c1 ext))) = fst ` set (fst (snd (to_key c2 ext))) \<and>
         fst (to_key c1 ext) = fst (to_key c2 ext)))"
proof (intro conjI impI)
  show "fst (to_key c ext) = py_str_tuple (map snd (sort_key fst (fst (snd (to_key c ext)))))"
    by (rule to_key_fst)
  show "fst (snd (to_key c ext)) =
     (case ext of
        None \<Rightarrow> c
      | Some e \<Rightarrow>
          if dict_get c (resource_attr_name e) \<noteq> PNone
          then filter (\<lambda>(k, v). k \<noteq> resource_attr_name e) c else c)"
    by (simp add: to_key_def Let_def remove_resource_def split: option.splits)
next
  assume "wf_config c1 \<and> wf_config c2 \<and>
    map_of (fst (snd (to_key c1 ext))) = map_of (fst (snd (to_key c2 ext)))"
  then show "fst (to_key c1 ext) = fst (to_key c2 ext)"
    using to_key_same_dict [of c1 c2 ext] by simp
next
  assume "map snd (sort_key fst (fst (snd (to_key c1 ext)))) =
    map snd (sort_key fst (fst (snd (to_key c2 ext))))"
  then show "fst (to_key c1 ext) = fst (to_key c2 ext)"
    by (simp add: to_key_fst [of c1] to_key_fst [of c2])
next
  assume p: "plain_config c1 \<and> plain_config c2"
  show "fst (to_key c1 ext) = fst (to_key c2 ext) \<longleftrightarrow>
      map snd (sort_key fst (fst (snd (to_key c1 ext)))) =
      map snd (sort_key fst (fst (snd (to_key c2 ext))))"
    using py_str_tuple_inj [OF _ to_key_plain [of c1 ext] to_key_plain [of c2 ext]] p
    by (auto simp: to_key_fst [of c1] to_key_fst [of c2])
next
  assume a: "plain_config c1 \<and> plain_config c2 \<and> wf_config c1 \<and> wf_config c2"
  then have d: "distinct (map fst (fst (snd (to_key c1 ext))))"
      "distinct (map fst (fst (snd (to_key c2 ext))))"
    using to_key_wf [of c1 ext] to_key_wf [of c2 ext] by (simp_all add: wf_config_def)
  have vals: "fst (to_key c1 ext) = fst (to_key c2 ext) \<Longrightarrow>
      map snd (sort_key fst (fst (snd (to_key c1 ext)))) =
      map snd (sort_key fst (fst (snd (to_key c2 ext))))"
    using py_str_tuple_inj [OF _ to_key_plain [of c1 ext] to_key_plain [of c2 ext]] a
    by (simp add: to_key_fst [of c1] to_key_fst [of c2])
  show "map_of (fst (snd (to_key c1 ext))) = map_of (fst (snd (to_key c2 ext))) \<longleftrightarrow>
         fst ` set (fst (snd (to_key c1 ext))) = fst ` set (fst (snd (to_key c2 ext))) \<and>
         fst (to_key c1 ext) = fst (to_key c2 ext)"
  proof
    assume m: "map_of (fst (snd (to_key c1 ext))) = map_of (fst (snd (to_key c2 ext)))"
    then have "dom (map_of (fst (snd (to_key c1 ext)))) = dom (map_of (fst (snd (to_key c2 ext))))"
      by simp
    then have "fst ` set (fst (snd (to_key c1 ext))) = fst ` set (fst (snd (to_key c2 ext)))"
      by (simp add: dom_map_of_conv_image_fst)
    with to_key_same_dict [OF _ _ m] a
    show "fst ` set (fst (snd (to_key c1 ext))) = fst ` set (fst (snd (to_key c2 ext))) \<and>
         fst (to_key c1 ext) = fst (to_key c2 ext)" by simp
  next
    assume "fst ` set (fst (snd (to_key c1 ext))) = fst ` set (fst (snd (to_key c2 ext))) \<and>
         fst (to_key c1 ext) = fst (to_key c2 ext)"
    with vals same_names_values [OF d]
    show "map_of (fst (snd (to_key c1 ext))) = map_of (fst (snd (to_key c2 ext)))" by simp
  qed
qed

theorem to_key_values_only_witness:
  "fst (to_key [(''lr'', PObject 7 ''0.5'' ''0.5''), (''a'', PStr ''u''), (''r'', PInt 5)]
          (Some \<lparr>resource_attr_name = ''r''\<rparr>)) =
     ''('' @ [CHR 0x27, CHR ''u'', CHR 0x27] @ '', 0.5)'' \<and>
   fst (to_key [(''r'', PInt 9), (''a'', PStr ''u''), (''lr'', PObject 7 ''0.5'' ''0.5'')]
          (Some \<lparr>resource_attr_name = ''r''\<rparr>)) =
   fst (to_key [(''lr'', PObject 7 ''0.5'' ''0.5''), (''a'', PStr ''u''), (''r'', PInt 5)]
          (Some \<lparr>resource_attr_name = ''r''\<rparr>)) \<and>
   fst (to_key [(''b'', PInt 2), (''a'', PStr ''u''), (''r'', PInt 5)]
          (Some \<lparr>resource_attr_name = ''r''\<rparr>)) =
     ''('' @ [CHR 0x27, CHR ''u'', CHR 0x27] @ '', 2)'' \<and>
   map_of (fst (snd (to_key [(''b'', PInt 2), (''a'', PStr ''u''), (''r'', PInt 5)]
                 (Some \<lparr>resource_attr_name = ''r''\<rparr>)))) =
   map_of (fst (snd (to_key [(''r'', PInt 9), (''a'', PStr ''u''), (''b'', PInt 2)]
                 (Some \<lparr>resource_attr_name = ''r''\<rparr>))))"
proof -
  let ?ext = "Some \<lparr>resource_attr_name = ''r''\<rparr>"
  let ?g1 = "[(''lr'', PObject 7 ''0.5'' ''0.5''), (''a'', PStr ''u''), (''r'', PInt 5)]"
  let ?g2 = "[(''r'', PInt 9), (''a'', PStr ''u''), (''lr'', PObject 7 ''0.5'' ''0.5'')]"
  have same: "map_of (fst (snd (to_key ?g2 ?ext))) = map_of (fst (snd (to_key ?g1 ?ext)))"
    by (rule ext) (simp add: eval_simps)
  have wf: "wf_config ?g2" "wf_config ?g1" by (simp_all add: wf_config_def)
  have general: "fst (to_key ?g2 ?ext) = fst (to_key ?g1 ?ext)"
    using to_key_values_only
      [where ?c1.0 = ?g2 and ?c2.0 = ?g1 and ext = ?ext,
       THEN conjunct2, THEN conjunct2, THEN conjunct1] wf same
    by blast
  show ?thesis
    using general
      to_key_values_only
        [where ?c1.0 = "[(''b'', PInt 2), (''a'', PStr ''u''), (''r'', PInt 5)]"
           and ?c2.0 = "[(''r'', PInt 9), (''a'', PStr ''u''), (''b'', PInt 2)]"
           and ext = ?ext,
         THEN conjunct2, THEN conjunct2, THEN conjunct2, THEN conjunct2, THEN conjunct2]
    by (simp add: eval_simps wf_config_def plain_config_def py_repr_str_def py_quote_def
          py_escape_def insert_commute)
qed

theorem to_key_names_counterexample:
  "fst (to_key [(''x'', PInt 1)] None) = fst (to_key [(''y'', PInt 1)] None) \<and>
   map_of (fst (snd (to_key [(''x'', PInt 1)] None))) \<noteq>
   map_of (fst (snd (to_key [(''y'', PInt 1)] None)))"
proof
  show "fst (to_key [(''x'', PInt 1)] None) = fst (to_key [(''y'', PInt 1)] None)"
    by (simp add: eval_simps)
  have "map_of [(''x'', PInt 1)] ''x'' \<noteq> map_of [(''y'', PInt 1)] ''x''" by simp
  then have "map_of [(''x'', PInt 1)] \<noteq> map_of [(''y'', PInt 1)]" by metis
  then show "map_of (fst (snd (to_key [(''x'', PInt 1)] None))) \<noteq>
   map_of (fst (snd (to_key [(''y'', PInt 1)] None)))"
    by (simp add: to_key_def)
qed

section \<open>Snapshots\<close>

lemmas heap_simps = ConfigCounter_new_def deref_def ref_add_config_def ref_config_id_def
  ref_get_mutable_state_def ref_set_mutable_state_def

text \<open>
  For one registry whose reference is a position of the heap, the methods on references
  do what the methods on values do.
\<close>

lemma ref_add_config_deref:
  assumes "ref_config_id_dict self < length h"
  shows "fst (ref_add_config c self h) = fst (add_config c (deref self h))"
    and "deref (fst (snd (ref_add_config c self h))) (snd (snd (ref_add_config c self h))) =
         snd (add_config c (deref self h))"
  using assms
  by (cases "to_key c (ref_configspace_ext self)";
      auto simp: ref_add_config_def deref_def add_config_def split: option.splits prod.splits)+

lemma ConfigCounter_new_deref:
  "deref (fst (ConfigCounter_new ext h)) (snd (ConfigCounter_new ext h)) = ConfigCounter_init ext"
  by (simp add: ConfigCounter_new_def deref_def ConfigCounter_init_def)

text \<open>
  The snapshot does not hold the extended configuration space: restored into a registry
  built without it, the same table answers differently.
\<close>

lemma restore_other_extractor:
  "config_id [(''x'', PInt 1), (''r'', PInt 5)]
     (snd (add_config [(''x'', PInt 1), (''r'', PInt 5)]
        (ConfigCounter_init (Some \<lparr>resource_attr_name = ''r''\<rparr>)))) = Inr ''0:5'' \<and>
   config_id [(''x'', PInt 1), (''r'', PInt 5)]
     (set_mutable_state
        (get_mutable_state
           (snd (add_config [(''x'', PInt 1), (''r'', PInt 5)]
              (ConfigCounter_init (Some \<lparr>resource_attr_name = ''r''\<rparr>)))))
        (ConfigCounter_init None)) = Inl (KeyError ''(5, 1)'')"
  by (simp add: eval_simps set_mutable_state_def get_mutable_state_def)

text \<open>
  Two registries made by the constructor, the second restored from the snapshot of the
  first, so that both write one table: after \<^verbatim>\<open>add_config({'x': 1})\<close> through the
  first, \<^verbatim>\<open>add_config({'x': 2})\<close> through the second succeeds, with its own counter
  still 0, and the table holds the ID 0 for both keys.
\<close>

theorem add_config_reuses_id_counterexample:
  "fst (ref_add_config [(''x'', PInt 2)]
          (ref_set_mutable_state (ref_get_mutable_state (fst (ConfigCounter_new None [])))
             (fst (ConfigCounter_new None (snd (ConfigCounter_new None [])))))
          (snd (snd (ref_add_config [(''x'', PInt 1)]
             (fst (ConfigCounter_new None []))
             (snd (ConfigCounter_new None (snd (ConfigCounter_new None [])))))))) =
     Inr ([(''x'', PInt 2)], PNone) \<and>
   snd (snd (ref_add_config [(''x'', PInt 2)]
          (ref_set_mutable_state (ref_get_mutable_state (fst (ConfigCounter_new None [])))
             (fst (ConfigCounter_new None (snd (ConfigCounter_new None [])))))
          (snd (snd (ref_add_config [(''x'', PInt 1)]
             (fst (ConfigCounter_new None []))
             (snd (ConfigCounter_new None (snd (ConfigCounter_new None [])))))))))
     ! 0 = [''(1,)'' \<mapsto> 0, ''(2,)'' \<mapsto> 0]"
  by (simp add: heap_simps eval_simps)

text \<open>
  C6, as the code has it. \<^verbatim>\<open>set_mutable_state\<close> with the snapshot of a registry, on a fresh
  registry built with the same extended configuration space, succeeds and gives a registry
  with the counter and the table of the first: any sequence of \<^verbatim>\<open>config_id\<close> and
  \<^verbatim>\<open>add_config\<close> calls made on it returns what the same calls return on the first
  registry in its place. The snapshot holds the table itself, so the two registries share
  it, and an insertion through one is seen through the other: when the same configuration
  is inserted through both, the second call raises.
\<close>

theorem restore_round_trip:
  "set_mutable_state (get_mutable_state s) (ConfigCounter_init (configspace_ext s)) = s \<and>
   printer_set_mutable_state (printer_get_mutable_state p)
       (DebugLogPrinter_init (configspace_ext (counter_obj p))) =
     (Inr (), (DebugLogPrinter_init (configspace_ext (counter_obj p)))\<lparr>counter_obj := counter_obj p\<rparr>) \<and>
   ref_set_mutable_state (ref_get_mutable_state a)
       (fst (ConfigCounter_new (ref_configspace_ext a) h)) = a \<and>
   do_registry_calls cs
       (ref_set_mutable_state (ref_get_mutable_state a)
          (fst (ConfigCounter_new (ref_configspace_ext a) h)))
       (snd (ConfigCounter_new (ref_configspace_ext a) h)) =
     do_registry_calls cs a (snd (ConfigCounter_new (ref_configspace_ext a) h))"
proof -
  have 1: "set_mutable_state (get_mutable_state s) (ConfigCounter_init (configspace_ext s)) = s"
    by (simp add: set_mutable_state_def get_mutable_state_def ConfigCounter_init_def)
  have 2: "printer_set_mutable_state (printer_get_mutable_state p)
       (DebugLogPrinter_init (configspace_ext (counter_obj p))) =
     (Inr (), (DebugLogPrinter_init (configspace_ext (counter_obj p)))\<lparr>counter_obj := counter_obj p\<rparr>)"
    by (simp add: printer_set_mutable_state_def printer_get_mutable_state_def DebugLogPrinter_init_def
          set_mutable_state_def get_mutable_state_def ConfigCounter_init_def)
  have 3: "ref_set_mutable_state (ref_get_mutable_state a)
       (fst (ConfigCounter_new (ref_configspace_ext a) h)) = a"
    by (simp add: heap_simps)
  show ?thesis by (simp only: 1 2 3 simp_thms)
qed

theorem restore_round_trip_witness:
  "do_registry_calls [Identifier [(''x'', PInt 1), (''r'', PInt 5)], Insert [(''x'', PInt 1)], Insert [(''x'', PInt 2)]]
     (ref_set_mutable_state
        (ref_get_mutable_state
           \<lparr>ref_config_counter = 1, ref_config_id_dict = 0,
            ref_configspace_ext = Some \<lparr>resource_attr_name = ''r''\<rparr>\<rparr>)
        (fst (ConfigCounter_new (Some \<lparr>resource_attr_name = ''r''\<rparr>) [[''(1,)'' \<mapsto> 0]])))
     (snd (ConfigCounter_new (Some \<lparr>resource_attr_name = ''r''\<rparr>) [[''(1,)'' \<mapsto> 0]])) =
   ([Identifier_result (Inr ''0:5''),
     Insert_result (Inl (AssertionError (ConfigAlreadyAssigned [(''x'', PInt 1)] 0))),
     Insert_result (Inr ([(''x'', PInt 2)], PNone))],
    \<lparr>ref_config_counter = 2, ref_config_id_dict = 0,
     ref_configspace_ext = Some \<lparr>resource_attr_name = ''r''\<rparr>\<rparr>,
    [[''(1,)'' \<mapsto> 0, ''(2,)'' \<mapsto> 1], Map.empty])"
  using restore_round_trip
    [where a = "\<lparr>ref_config_counter = 1, ref_config_id_dict = 0,
            ref_configspace_ext = Some \<lparr>resource_attr_name = ''r''\<rparr>\<rparr>"
       and h = "[[''(1,)'' \<mapsto> 0]]"
       and cs = "[Identifier [(''x'', PInt 1), (''r'', PInt 5)], Insert [(''x'', PInt 1)], Insert [(''x'', PInt 2)]]",
     THEN conjunct2, THEN conjunct2, THEN conjunct2]
  by (simp add: heap_simps eval_simps)

theorem restore_shares_table_counterexample:
  "fst (ref_add_config [(''x'', PInt 1)]
          (fst (ConfigCounter_new None []))
          (snd (ConfigCounter_new None (snd (ConfigCounter_new None []))))) =
     Inr ([(''x'', PInt 1)], PNone) \<and>
   fst (ref_add_config [(''x'', PInt 1)]
          (ref_set_mutable_state (ref_get_mutable_state (fst (ConfigCounter_new None [])))
             (fst (ConfigCounter_new None (snd (ConfigCounter_new None [])))))
          (snd (snd (ref_add_config [(''x'', PInt 1)]
             (fst (ConfigCounter_new None []))
             (snd (ConfigCounter_new None (snd (ConfigCounter_new None [])))))))) =
     Inl (AssertionError (ConfigAlreadyAssigned [(''x'', PInt 1)] 0))"
  by (simp add: heap_simps eval_simps)

end
